theory Spec2Isabelle
  imports Main "HOL-Library.AList" "HOL-Library.Sublist"
begin

section \<open>Strings as the program uses them\<close>

text \<open>
  The extension works on JavaScript strings. They are modelled as \<open>string\<close>; a character
  stands for one code unit below 256. The helpers below are the \<open>String.prototype\<close>
  methods the source calls, with the behaviour ECMAScript gives them on such text.
\<close>

definition inRange :: "char \<Rightarrow> char \<Rightarrow> char \<Rightarrow> bool" where
  "inRange lo hi c = ((of_char lo :: nat) \<le> of_char c \<and> (of_char c :: nat) \<le> of_char hi)"

definition isSpace :: "char \<Rightarrow> bool" where
  \<comment> \<open>\<open>\s\<close> and the characters \<open>trim()\<close> removes: TAB, LF, VT, FF, CR, space, NBSP.\<close>
  "isSpace c = List.member [CHR 0x09, CHR 0x0A, CHR 0x0B, CHR 0x0C, CHR 0x0D, CHR 0x20, CHR 0xA0] c"

definition isDigit :: "char \<Rightarrow> bool" where
  "isDigit c = inRange CHR ''0'' CHR ''9'' c"

definition isWord :: "char \<Rightarrow> bool" where
  \<comment> \<open>\<open>\w\<close>\<close>
  "isWord c = (inRange CHR ''a'' CHR ''z'' c \<or> inRange CHR ''A'' CHR ''Z'' c
     \<or> isDigit c \<or> c = CHR ''_'')"

definition isLineTerminator :: "char \<Rightarrow> bool" where
  "isLineTerminator c = (c = CHR 0x0A \<or> c = CHR 0x0D)"

definition trim :: "string \<Rightarrow> string" where
  "trim s = rev (dropWhile isSpace (rev (dropWhile isSpace s)))"

definition startsWith :: "string \<Rightarrow> string \<Rightarrow> bool" where
  "startsWith s p = (take (length p) s = p)"

definition endsWith :: "string \<Rightarrow> string \<Rightarrow> bool" where
  "endsWith s p = startsWith (rev s) (rev p)"

fun includes_str :: "string \<Rightarrow> string \<Rightarrow> bool" where
  "includes_str [] p = (p = [])"
| "includes_str (c # cs) p = (startsWith (c # cs) p \<or> includes_str cs p)"

fun indexOf :: "string \<Rightarrow> char \<Rightarrow> nat option" where
  \<comment> \<open>\<open>s.indexOf(c)\<close> for a one-character needle; \<open>None\<close> is the source's \<open>-1\<close>.\<close>
  "indexOf [] c = None"
| "indexOf (x # xs) c = (if x = c then Some 0 else map_option Suc (indexOf xs c))"

fun split_on :: "char \<Rightarrow> string \<Rightarrow> string list" where
  \<comment> \<open>\<open>s.split(c)\<close> for a one-character separator: the empty string gives one empty piece.\<close>
  "split_on c [] = [[]]"
| "split_on c (x # xs) =
     (if x = c then [] # split_on c xs
      else (case split_on c xs of [] \<Rightarrow> [[x]] | y # ys \<Rightarrow> (x # y) # ys))"

fun join :: "string \<Rightarrow> string list \<Rightarrow> string" where
  "join sep [] = []"
| "join sep [x] = x"
| "join sep (x # y # ys) = x @ sep @ join sep (y # ys)"

definition repeat_str :: "string \<Rightarrow> nat \<Rightarrow> string" where
  "repeat_str s n = concat (replicate n s)"

section \<open>Regular expressions\<close>

text \<open>
  The parser is built on \<open>RegExp\<close>. A pattern is a value of \<open>re\<close>; \<open>rmatch\<close> is the
  backtracking matcher of ECMAScript: alternatives left to right, a greedy quantifier
  tries one more iteration before it tries to stop, a lazy one the other way round, and
  an iteration of a quantifier that consumes nothing is rejected. The continuation is the
  rest of the pattern. A match state is a cursor in the subject: the text before it
  (reversed), the text after it, and the captures so far.
\<close>

datatype catom = CChar char | CRange char char | CSpace | CNonSpace | CWord | CDigit

datatype re =
    Eps
  | Chr char
  | Cls bool "catom list"
  | Dot
  | Seq re re
  | Alt re re
  | Star bool re
  | Grp nat re
  | Bref nat
  | Bol
  | Eol
  | Wb
  | Ahead re

record flags =
  multiline :: bool
  dotAll :: bool

record mstate =
  pre :: string
  rest :: string
  caps :: "(nat \<times> string) list"

fun catom_has :: "catom \<Rightarrow> char \<Rightarrow> bool" where
  "catom_has (CChar d) c = (c = d)"
| "catom_has (CRange lo hi) c = inRange lo hi c"
| "catom_has CSpace c = isSpace c"
| "catom_has CNonSpace c = (\<not> isSpace c)"
| "catom_has CWord c = isWord c"
| "catom_has CDigit c = isDigit c"

definition advance :: "mstate \<Rightarrow> nat \<Rightarrow> mstate" where
  "advance s n = s\<lparr>pre := rev (take n (rest s)) @ pre s, rest := drop n (rest s)\<rparr>"

definition atWordChar :: "string \<Rightarrow> bool" where
  "atWordChar s = (case s of [] \<Rightarrow> False | c # _ \<Rightarrow> isWord c)"

function (sequential) rmatch ::
  "flags \<Rightarrow> re \<Rightarrow> mstate \<Rightarrow> (mstate \<Rightarrow> mstate option) \<Rightarrow> mstate option" where
  "rmatch f Eps s k = k s"
| "rmatch f (Chr c) s k =
     (case rest s of [] \<Rightarrow> None | d # _ \<Rightarrow> if d = c then k (advance s 1) else None)"
| "rmatch f (Cls pos as) s k =
     (case rest s of [] \<Rightarrow> None
      | d # _ \<Rightarrow> if list_ex (\<lambda>a. catom_has a d) as = pos then k (advance s 1) else None)"
| "rmatch f Dot s k =
     (case rest s of [] \<Rightarrow> None
      | d # _ \<Rightarrow> if dotAll f \<or> \<not> isLineTerminator d then k (advance s 1) else None)"
| "rmatch f (Seq a b) s k = rmatch f a s (\<lambda>s'. rmatch f b s' k)"
| "rmatch f (Alt a b) s k =
     (case rmatch f a s k of Some r \<Rightarrow> Some r | None \<Rightarrow> rmatch f b s k)"
| "rmatch f (Star greedy a) s k =
     (if greedy then
        (case rmatch f a s (\<lambda>s'. if length (rest s') < length (rest s)
                                     then rmatch f (Star greedy a) s' k else None) of
           Some r \<Rightarrow> Some r
         | None \<Rightarrow> k s)
      else
        (case k s of
           Some r \<Rightarrow> Some r
         | None \<Rightarrow> rmatch f a s (\<lambda>s'. if length (rest s') < length (rest s)
                                     then rmatch f (Star greedy a) s' k else None)))"
| "rmatch f (Grp n a) s k =
     rmatch f a s (\<lambda>s'. k (s'\<lparr>caps :=
        (n, rev (take (length (pre s') - length (pre s)) (pre s'))) # caps s'\<rparr>))"
| "rmatch f (Bref n) s k =
     (case map_of (caps s) n of
        None \<Rightarrow> k s
      | Some t \<Rightarrow> if startsWith (rest s) t then k (advance s (length t)) else None)"
| "rmatch f Bol s k =
     (case pre s of [] \<Rightarrow> k s
      | c # _ \<Rightarrow> if multiline f \<and> isLineTerminator c then k s else None)"
| "rmatch f Eol s k =
     (case rest s of [] \<Rightarrow> k s
      | c # _ \<Rightarrow> if multiline f \<and> isLineTerminator c then k s else None)"
| "rmatch f Wb s k =
     (if atWordChar (pre s) \<noteq> atWordChar (rest s) then k s else None)"
| "rmatch f (Ahead a) s k =
     (case rmatch f a s Some of None \<Rightarrow> None | Some r \<Rightarrow> k (s\<lparr>caps := caps r\<rparr>))"
  by pat_completeness auto
termination
  by (relation "measures [\<lambda>(f, r, s, k). size r, \<lambda>(f, r, s, k). length (rest s)]") auto

text \<open>Derived forms, named as the pattern syntax names them.\<close>

definition Plus :: "re \<Rightarrow> re" where
  \<comment> \<open>\<open>a+\<close>\<close>
  "Plus a = Seq a (Star True a)"

definition Opt :: "re \<Rightarrow> re" where
  \<comment> \<open>\<open>a?\<close>\<close>
  "Opt a = Alt a Eps"

fun Lit :: "string \<Rightarrow> re" where
  \<comment> \<open>a run of literal characters\<close>
  "Lit [] = Eps"
| "Lit (c # cs) = Seq (Chr c) (Lit cs)"

fun seqs :: "re list \<Rightarrow> re" where
  "seqs [] = Eps"
| "seqs [a] = a"
| "seqs (a # b # bs) = Seq a (seqs (b # bs))"

abbreviation ws :: re where
  \<comment> \<open>\<open>\s*\<close>\<close>
  "ws \<equiv> Star True (Cls True [CSpace])"

text \<open>
  A match as \<open>exec\<close> returns it: where it starts, the matched text, the captures, and the
  cursor at its end (from which a global pattern goes on).
\<close>

record rmatch_result =
  m_index :: nat
  m_text :: string
  m_caps :: "(nat \<times> string) list"
  m_prefix :: string
  m_end :: mstate

definition group :: "rmatch_result \<Rightarrow> nat \<Rightarrow> string option" where
  \<comment> \<open>\<open>match[n]\<close>; \<open>None\<close> is \<open>undefined\<close>\<close>
  "group m n = map_of (m_caps m) n"

definition match_at :: "flags \<Rightarrow> re \<Rightarrow> string \<Rightarrow> string \<Rightarrow> rmatch_result option" where
  "match_at f r p s =
     (case rmatch f r \<lparr>pre = p, rest = s, caps = []\<rparr> Some of
        None \<Rightarrow> None
      | Some e \<Rightarrow> Some \<lparr>m_index = length p,
                        m_text = rev (take (length (pre e) - length p) (pre e)),
                        m_caps = caps e, m_prefix = p, m_end = e\<rparr>)"

fun search :: "flags \<Rightarrow> re \<Rightarrow> string \<Rightarrow> string \<Rightarrow> rmatch_result option" where
  \<comment> \<open>the leftmost match at or after the cursor\<close>
  "search f r p [] = match_at f r p []"
| "search f r p (c # cs) =
     (case match_at f r p (c # cs) of Some m \<Rightarrow> Some m | None \<Rightarrow> search f r (c # p) cs)"

definition exec :: "flags \<Rightarrow> re \<Rightarrow> string \<Rightarrow> rmatch_result option" where
  \<comment> \<open>\<open>regex.exec(s)\<close> on a pattern whose \<open>lastIndex\<close> is 0\<close>
  "exec f r s = search f r [] s"


text \<open>
  A loop \<open>while ((m = regex.exec(s)) !== null)\<close> over a global pattern goes on from the
  end of each match. Every pattern the source loops over begins with literal text, so a
  match is never empty and the cursor advances (\<open>search_advances\<close> below); the guard
  says so, and its other branch is never taken for these patterns.
\<close>

function exec_all_from :: "flags \<Rightarrow> re \<Rightarrow> string \<Rightarrow> string \<Rightarrow> rmatch_result list" where
  "exec_all_from f r p s =
     (case search f r p s of
        None \<Rightarrow> []
      | Some m \<Rightarrow>
          if length (rest (m_end m)) < length s
          then m # exec_all_from f r (pre (m_end m)) (rest (m_end m))
          else [m])"
  by pat_completeness auto
termination
  by (relation "measure (\<lambda>(f, r, p, s). length s)") auto

definition exec_all :: "flags \<Rightarrow> re \<Rightarrow> string \<Rightarrow> rmatch_result list" where
  "exec_all f r s = exec_all_from f r [] s"

text \<open>
  \<open>s.match(/r/g)\<close> and \<open>s.replace(/r/g, \<dots>)\<close> collect the matches from left to right;
  after an empty match they step over one character.
\<close>

function match_all_from :: "flags \<Rightarrow> re \<Rightarrow> string \<Rightarrow> string \<Rightarrow> rmatch_result list" where
  "match_all_from f r p s =
     (case search f r p s of
        None \<Rightarrow> []
      | Some m \<Rightarrow>
          if length (rest (m_end m)) < length s
          then
            (if m_text m = []
             then (case rest (m_end m) of
                     [] \<Rightarrow> [m]
                   | c # cs \<Rightarrow> m # match_all_from f r (c # pre (m_end m)) cs)
             else m # match_all_from f r (pre (m_end m)) (rest (m_end m)))
          else
            (case s of
               [] \<Rightarrow> [m]
             | c # cs \<Rightarrow> m # match_all_from f r (c # p) cs))"
  by pat_completeness auto
termination
  by (relation "measure (\<lambda>(f, r, p, s). length s)") auto

definition match_count :: "re \<Rightarrow> string \<Rightarrow> nat" where
  \<comment> \<open>\<open>(s.match(/r/g) || []).length\<close>\<close>
  "match_count r s = length (match_all_from \<lparr>multiline = False, dotAll = False\<rparr> r [] s)"

text \<open>
  The replacement text of \<open>replace\<close> is a template: \<open>$$\<close>, \<open>$&\<close>, \<open>$`\<close>, \<open>$'\<close> and
  \<open>$n\<close> are expanded (\<open>ng\<close> is the number of groups of the pattern); any other \<open>$\<close>
  stands for itself.
\<close>

definition digit_val :: "char \<Rightarrow> nat" where
  "digit_val c = of_char c - of_char CHR ''0''"

fun expand :: "nat \<Rightarrow> rmatch_result \<Rightarrow> string \<Rightarrow> string" where
  "expand ng m [] = []"
| "expand ng m [c] = [c]"
| "expand ng m (c # d # cs) =
     (if c \<noteq> CHR ''$'' then c # expand ng m (d # cs)
      else if d = CHR ''$'' then CHR ''$'' # expand ng m cs
      else if d = CHR ''&'' then m_text m @ expand ng m cs
      else if d = CHR 0x60 then rev (m_prefix m) @ expand ng m cs
      else if d = CHR 0x27 then rest (m_end m) @ expand ng m cs
      else if isDigit d then
        (case cs of
           e # es \<Rightarrow>
             if isDigit e \<and> 1 \<le> digit_val d * 10 + digit_val e
                \<and> digit_val d * 10 + digit_val e \<le> ng
             then (case group m (digit_val d * 10 + digit_val e) of
                     None \<Rightarrow> [] | Some t \<Rightarrow> t) @ expand ng m es
             else if 1 \<le> digit_val d \<and> digit_val d \<le> ng
             then (case group m (digit_val d) of None \<Rightarrow> [] | Some t \<Rightarrow> t) @ expand ng m cs
             else c # expand ng m (d # cs)
         | [] \<Rightarrow>
             if 1 \<le> digit_val d \<and> digit_val d \<le> ng
             then (case group m (digit_val d) of None \<Rightarrow> [] | Some t \<Rightarrow> t)
             else [c, d])
      else c # expand ng m (d # cs))"

fun splice :: "string \<Rightarrow> nat \<Rightarrow> (rmatch_result \<Rightarrow> string) \<Rightarrow> rmatch_result list \<Rightarrow> string" where
  \<comment> \<open>the subject with each match replaced; \<open>i\<close> is how much of it is already copied\<close>
  "splice s i g [] = drop i s"
| "splice s i g (m # ms) =
     take (m_index m - i) (drop i s) @ g m @ splice s (m_index m + length (m_text m)) g ms"

definition replace_fn :: "flags \<Rightarrow> re \<Rightarrow> (rmatch_result \<Rightarrow> string) \<Rightarrow> string \<Rightarrow> string" where
  \<comment> \<open>\<open>s.replace(/r/g, fn)\<close>\<close>
  "replace_fn f r g s = splice s 0 g (match_all_from f r [] s)"

definition replace_all :: "flags \<Rightarrow> re \<Rightarrow> nat \<Rightarrow> string \<Rightarrow> string \<Rightarrow> string" where
  \<comment> \<open>\<open>s.replace(/r/g, template)\<close>\<close>
  "replace_all f r ng template s = replace_fn f r (\<lambda>m. expand ng m template) s"

abbreviation no_flags :: flags where
  "no_flags \<equiv> \<lparr>multiline = False, dotAll = False\<rparr>"

abbreviation flags_m :: flags where
  "flags_m \<equiv> \<lparr>multiline = True, dotAll = False\<rparr>"

abbreviation flags_s :: flags where
  "flags_s \<equiv> \<lparr>multiline = False, dotAll = True\<rparr>"


section \<open>The platform\<close>

text \<open>
  What the extension takes from its platform is a parameter of the model: the workspace
  root it was constructed with, the file system as \<open>fs\<close> presents it, the clock, and
  \<open>JSON.parse\<close> and \<open>JSON.stringify\<close>. A parsed JSON value is a \<open>json\<close>: a number is
  given by the text \<open>toString()\<close> prints for it, an object by its own entries in the
  order \<open>Object.entries\<close> lists them, and \<open>JOther\<close> is any other value a property read
  can yield (a method inherited from a prototype), given by what \<open>String(value)\<close> prints.
\<close>

datatype json =
    JNull
  | JBool bool
  | JNumber string
  | JString string
  | JArray "json list"
  | JObject "(string \<times> json) list"
  | JOther string

text \<open>
  A module call as the parser returns it (its \<open>location\<close> is always \<open>null\<close>).
  \<open>variables\<close> is a plain object used as a dictionary: the latest assignment to a key is
  the one a read finds, so an assignment is put in front and \<open>map_of\<close> reads.
\<close>

record ModuleCall =
  mc_name :: string
  mc_source :: string
  mc_variables :: "(string \<times> string) list"

record env =
  workspaceRoot :: string
  cwd :: string
  isDirectory :: "string \<Rightarrow> bool"
  readdir :: "string \<Rightarrow> string list option"
  readFile :: "string \<Rightarrow> string option"
  clock :: "nat \<Rightarrow> int"
  JSON_parse :: "string \<Rightarrow> json option"
  JSON_stringify :: "json \<Rightarrow> string"
  inherited :: "json \<Rightarrow> string \<Rightarrow> json option"
  stringifyModuleCall :: "ModuleCall \<Rightarrow> string"
  parseModuleCall :: "string \<Rightarrow> ModuleCall option"

text \<open>
  \<open>isDirectory\<close> is \<open>directoryExists\<close> (\<open>access\<close> then \<open>stat\<close>, false when either fails);
  \<open>readdir\<close> and \<open>readFile\<close> are \<open>None\<close> where the call rejects; \<open>clock n\<close> is what the
  \<open>n\<close>-th call of \<open>Date.now()\<close> returns; \<open>JSON_parse\<close> is \<open>None\<close> where \<open>JSON.parse\<close>
  throws; \<open>JSON_stringify\<close> is \<open>JSON.stringify(v, null, 2)\<close>; \<open>inherited v name\<close> is the
  value of \<open>v[name]\<close> when \<open>name\<close> is not an own entry of an object \<open>v\<close>.
  \<open>findModuleCall\<close> keeps a module call in the cache as \<open>JSON.stringify(moduleCall)\<close> and
  reads it back with \<open>JSON.parse\<close>: these are \<open>stringifyModuleCall\<close> and \<open>parseModuleCall\<close>,
  the latter \<open>None\<close> where \<open>JSON.parse\<close> throws or yields something that is not a module
  call with a source (text that \<open>findModuleCall\<close> did not store), which the callers end
  as not found.
\<close>

datatype error = IOError | TypeError | SyntaxError

section \<open>The parser (\<open>parsers/terraformParser.ts\<close>)\<close>

definition escapeRegex :: "string \<Rightarrow> re" where
  \<comment> \<open>the escaped name, once compiled as part of a pattern, matches the name character by
     character\<close>
  "escapeRegex str = Lit str"

definition cleanValue :: "string \<Rightarrow> string" where
  "cleanValue v =
     (if v = [] then []
      else
        let cleaned = trim v;
            cleaned = (case indexOf cleaned CHR ''#'' of
                         None \<Rightarrow> cleaned
                       | Some i \<Rightarrow> trim (take i cleaned));
            cleaned = (if endsWith cleaned '','' then trim (butlast cleaned) else cleaned)
        in cleaned)"

function formatValue :: "json \<Rightarrow> string" where
  "formatValue JNull = ''null''"
| "formatValue (JString v) = ''\"'' @ v @ ''\"''"
| "formatValue (JBool b) = (if b then ''true'' else ''false'')"
| "formatValue (JNumber n) = n"
| "formatValue (JArray vs) =
     (if length vs = 0 then ''[]''
      else if length vs > 3
      then ''['' @ join '', '' (map formatValue (take 3 vs)) @ '', ...]''
      else ''['' @ join '', '' (map formatValue vs) @ '']'')"
| "formatValue (JObject es) =
     (if length es = 0 then ''{}''
      else if length es > 3
      then ''{ '' @ join '', '' (map (\<lambda>(k, v). k @ '' = '' @ formatValue v) (take 2 es)) @ '', ... }''
      else ''{ '' @ join '', '' (map (\<lambda>(k, v). k @ '' = '' @ formatValue v) es) @ '' }'')"
| "formatValue (JOther t) = t"
  by pat_completeness auto
termination
proof (relation "measure size")
  show "wf (measure size)" by simp
next
  fix vs :: "json list" and x
  assume "x \<in> set (take 3 vs)"
  then have "x \<in> set vs" by (rule in_set_takeD)
  then have "size x < Suc (size_list size vs)" by (simp add: less_Suc_eq_le size_list_estimation')
  then show "(x, JArray vs) \<in> measure size" by simp
next
  fix vs :: "json list" and x
  assume "x \<in> set vs"
  then have "size x < Suc (size_list size vs)" by (simp add: less_Suc_eq_le size_list_estimation')
  then show "(x, JArray vs) \<in> measure size" by simp
next
  fix es :: "(string \<times> json) list" and x k v
  assume "x \<in> set (take 2 es)" and "(k, v) = x"
  then have "(k, v) \<in> set es" by (auto dest: in_set_takeD)
  then have "size_prod (\<lambda>_. 0) size (k, v) \<le> size_list (size_prod (\<lambda>_. 0) size) es"
    by (rule size_list_estimation') simp
  then show "(v, JObject es) \<in> measure size" by simp
next
  fix es :: "(string \<times> json) list" and x k v
  assume "x \<in> set es" and "(k, v) = x"
  then have "(k, v) \<in> set es" by simp
  then have "size_prod (\<lambda>_. 0) size (k, v) \<le> size_list (size_prod (\<lambda>_. 0) size) es"
    by (rule size_list_estimation') simp
  then show "(v, JObject es) \<in> measure size" by simp
qed

definition js_member :: "env \<Rightarrow> json \<Rightarrow> string \<Rightarrow> error + json option" where
  \<comment> \<open>\<open>v[name]\<close>: a \<open>TypeError\<close> on \<open>null\<close>, an own entry of an object, or what is inherited;
     \<open>None\<close> is \<open>undefined\<close>\<close>
  "js_member e v name =
     (case v of
        JNull \<Rightarrow> Inl TypeError
      | JObject es \<Rightarrow>
          (case map_of es name of Some x \<Rightarrow> Inr (Some x) | None \<Rightarrow> Inr (inherited e v name))
      | _ \<Rightarrow> Inr (inherited e v name))"

definition parseJsonVariable :: "env \<Rightarrow> string \<Rightarrow> string \<Rightarrow> string option" where
  "parseJsonVariable e content variableName =
     (case JSON_parse e content of
        None \<Rightarrow> None
      | Some j \<Rightarrow>
          (case js_member e j variableName of
             Inl _ \<Rightarrow> None
           | Inr None \<Rightarrow> None
           | Inr (Some v) \<Rightarrow> Some (formatValue v)))"


subsection \<open>Braced objects\<close>

fun hasMatchingBraces_loop :: "string \<Rightarrow> int \<Rightarrow> bool \<Rightarrow> bool \<Rightarrow> int" where
  \<comment> \<open>the scan of \<open>hasMatchingBraces\<close>: the brace count after the remaining characters\<close>
  "hasMatchingBraces_loop [] braceCount inString escaped = braceCount"
| "hasMatchingBraces_loop (c # cs) braceCount inString escaped =
     (if escaped then hasMatchingBraces_loop cs braceCount inString False
      else if c = CHR 0x5C then hasMatchingBraces_loop cs braceCount inString True
      else if c = CHR ''\"'' then hasMatchingBraces_loop cs braceCount (\<not> inString) escaped
      else if \<not> inString then
        (if c = CHR ''{'' then hasMatchingBraces_loop cs (braceCount + 1) inString escaped
         else if c = CHR ''}'' then hasMatchingBraces_loop cs (braceCount - 1) inString escaped
         else hasMatchingBraces_loop cs braceCount inString escaped)
      else hasMatchingBraces_loop cs braceCount inString escaped)"

definition hasMatchingBraces :: "string \<Rightarrow> bool" where
  "hasMatchingBraces str = (hasMatchingBraces_loop str 0 False False = 0)"

fun formatHclObject_loop :: "string list \<Rightarrow> nat \<Rightarrow> string list" where
  "formatHclObject_loop [] indentLevel = []"
| "formatHclObject_loop (line # ls) indentLevel =
     (let trimmed = trim line in
      if trimmed = [] then formatHclObject_loop ls indentLevel
      else
        let indentLevel = (if includes_str trimmed ''}'' then indentLevel - 1 else indentLevel)
        in (repeat_str ''  '' indentLevel @ trimmed)
           # formatHclObject_loop ls
               (if includes_str trimmed ''{'' then indentLevel + 1 else indentLevel))"

definition formatHclObject :: "string \<Rightarrow> string" where
  "formatHclObject hclObj =
     join [CHR 0x0A] (formatHclObject_loop (split_on CHR 0x0A hclObj) 0)"

text \<open>
  The patterns of \<open>convertHclObjectToJson\<close> are regular expression literals, in which
  \<open>\\\<close> is a backslash: the class \<open>[^",\\{\\[\\n\\r]\<close> excludes the quote, the comma, the
  backslash, both opening brackets and the letters \<open>n\<close> and \<open>r\<close>, and \<open>/^\\d+(\\.\\d+)?$/\<close>
  asks for a backslash followed by the letter \<open>d\<close>.
\<close>

definition re_key_equals :: re where
  \<comment> \<open>\<open>/(\w+)\s*=\s*/g\<close>\<close>
  "re_key_equals = seqs [Grp 1 (Plus (Cls True [CWord])), ws, Chr CHR ''='', ws]"

definition re_bare_value :: re where
  \<comment> \<open>\<open>/:\s*([^",\\{\\[\\n\\r]+)(\s*[,\\}\\n\\r])/g\<close>\<close>
  "re_bare_value = seqs
     [Chr CHR '':'', ws,
      Grp 1 (Plus (Cls False [CChar CHR ''\"'', CChar CHR '','', CChar CHR 0x5C, CChar CHR ''{'',
                              CChar CHR ''['', CChar CHR ''n'', CChar CHR ''r''])),
      Grp 2 (Seq ws (Cls True [CChar CHR '','', CChar CHR 0x5C, CChar CHR ''}'',
                               CChar CHR ''n'', CChar CHR ''r'']))]"

definition re_number_test :: re where
  \<comment> \<open>\<open>/^\\d+(\\.\\d+)?$/\<close>\<close>
  "re_number_test = seqs
     [Bol, Chr CHR 0x5C, Plus (Chr CHR ''d''),
      Opt (Grp 1 (seqs [Chr CHR 0x5C, Dot, Chr CHR 0x5C, Plus (Chr CHR ''d'')])), Eol]"

definition re_trailing_comma :: re where
  \<comment> \<open>\<open>/,(\s*[\\}\\]])/g\<close>: the class is \<open>[\\}\\]\<close>, and the bracket after it is literal\<close>
  "re_trailing_comma = seqs
     [Chr CHR '','', Grp 1 (seqs [ws, Cls True [CChar CHR 0x5C, CChar CHR ''}''], Chr CHR '']''])]"

definition quote_bare_value :: "rmatch_result \<Rightarrow> string" where
  \<comment> \<open>the callback \<open>(match, value, suffix) => \<dots>\<close>\<close>
  "quote_bare_value m =
     (let val = (case group m 1 of None \<Rightarrow> [] | Some t \<Rightarrow> t);
          suffix = (case group m 2 of None \<Rightarrow> [] | Some t \<Rightarrow> t);
          trimmedValue = trim val
      in if trimmedValue = ''true'' \<or> trimmedValue = ''false''
            \<or> exec no_flags re_number_test trimmedValue \<noteq> None
         then '': '' @ trimmedValue @ suffix
         else '': \"'' @ trimmedValue @ ''\"'' @ suffix)"

definition convertHclObjectToJson :: "string \<Rightarrow> string" where
  "convertHclObjectToJson hclObj =
     (let jsonStr = trim hclObj;
          jsonStr = (if \<not> startsWith jsonStr ''{'' then ''{'' @ jsonStr @ ''}'' else jsonStr);
          jsonStr = replace_all no_flags re_key_equals 1 ''\"$1\": '' jsonStr;
          jsonStr = replace_fn no_flags re_bare_value quote_bare_value jsonStr;
          jsonStr = replace_all no_flags re_trailing_comma 1 ''$1'' jsonStr
      in jsonStr)"

definition formatComplexObject :: "env \<Rightarrow> string \<Rightarrow> string" where
  \<comment> \<open>\<open>JSON.parse\<close> throwing is caught: the object is then formatted as HCL\<close>
  "formatComplexObject e objectStr =
     (case JSON_parse e (convertHclObjectToJson (trim objectStr)) of
        Some parsed \<Rightarrow> JSON_stringify e parsed
      | None \<Rightarrow> formatHclObject objectStr)"

definition re_object_start :: "string \<Rightarrow> re" where
  \<comment> \<open>\<open>^\s*NAME\s*=\s*\{\<close>\<close>
  "re_object_start variableName =
     seqs [Bol, ws, escapeRegex variableName, ws, Chr CHR ''='', ws, Chr CHR ''{'']"

definition braceDelta :: "string \<Rightarrow> int" where
  \<comment> \<open>\<open>(line.match(/\\{/g) || []).length - (line.match(/\\}/g) || []).length\<close>: the
     literals \<open>/\\{/g\<close> and \<open>/\\}/g\<close> match a backslash followed by the brace\<close>
  "braceDelta line =
     int (match_count (Seq (Chr CHR 0x5C) (Chr CHR ''{'')) line)
     - int (match_count (Seq (Chr CHR 0x5C) (Chr CHR ''}'')) line)"

fun extractCompleteObject_loop ::
  "string \<Rightarrow> string list \<Rightarrow> bool \<Rightarrow> int \<Rightarrow> string list \<Rightarrow> string list" where
  \<comment> \<open>the \<open>for\<close> loop over the lines; the result is \<open>objectLines\<close> when the loop ends\<close>
  "extractCompleteObject_loop variableName [] inObject braceCount objectLines = objectLines"
| "extractCompleteObject_loop variableName (line # ls) inObject braceCount objectLines =
     (if \<not> inObject \<and> exec no_flags (re_object_start variableName) line \<noteq> None then
        (let braceCount = braceDelta line;
             afterEquals = trim (case indexOf line CHR ''='' of
                                   None \<Rightarrow> line
                                 | Some i \<Rightarrow> drop (i + 1) line);
             objectLines = objectLines @ [afterEquals]
         in if braceCount = 0 then objectLines
            else extractCompleteObject_loop variableName ls True braceCount objectLines)
      else if inObject then
        (let objectLines = objectLines @ [line];
             braceCount = braceCount + braceDelta line
         in if braceCount \<le> 0 then objectLines
            else extractCompleteObject_loop variableName ls inObject braceCount objectLines)
      else extractCompleteObject_loop variableName ls inObject braceCount objectLines)"

definition extractCompleteObject :: "env \<Rightarrow> string \<Rightarrow> string \<Rightarrow> string" where
  "extractCompleteObject e content variableName =
     (let objectLines =
            extractCompleteObject_loop variableName (split_on CHR 0x0A content) False 0 []
      in if length objectLines > 0
         then formatComplexObject e (join [CHR 0x0A] objectLines)
         else ''{}'')"

definition parseComplexObject :: "env \<Rightarrow> string \<Rightarrow> string \<Rightarrow> string \<Rightarrow> string" where
  "parseComplexObject e objectValue fullContent variableName =
     (if trim objectValue = ''{'' then extractCompleteObject e fullContent variableName
      else if \<not> hasMatchingBraces objectValue
      then extractCompleteObject e fullContent variableName
      else formatComplexObject e objectValue)"

subsection \<open>Assignments\<close>

text \<open>
  The seven patterns of \<open>parseHclVariable\<close>, in the order the source tries them (all with
  the flag \<open>m\<close>; a fresh pattern with \<open>g\<close> starts at index 0 like one without):
  \<^enum> \<^verbatim>\<open>^\s*NAME\s*=\s*"([^"]*)"\s*$\<close>
  \<^enum> \<^verbatim>\<open>^\s*NAME\s*=\s*([^\s\n#\{\[]+)\s*(?:#.*)?$\<close>
  \<^enum> \<^verbatim>\<open>^\s*NAME\s*=\s*(\[[^\]]*\])\s*$\<close>
  \<^enum> \<^verbatim>\<open>^\s*NAME\s*=\s*(\{[\s\S]*?\})\s*(?:\n|$)\<close>
  \<^enum> \<^verbatim>\<open>^\s*NAME\s*=\s*(true|false)\s*$\<close>
  \<^enum> \<^verbatim>\<open>^\s*NAME\s*=\s*(\d+(?:\.\d+)?)\s*$\<close>
  \<^enum> \<^verbatim>\<open>^\s*NAME\s*=\s*<<-?\s*(\w+)\s*\n([\s\S]*?)^\s*\1\s*$\<close>
\<close>

definition hcl_patterns :: "string \<Rightarrow> (flags \<times> re) list" where
  "hcl_patterns variableName =
     (let lhs = [Bol, ws, escapeRegex variableName, ws, Chr CHR ''='', ws] in
      [
        (flags_m, seqs (lhs @ [Chr CHR ''\"'', Grp 1 (Star True (Cls False [CChar CHR ''\"''])),
                               Chr CHR ''\"'', ws, Eol])),
        (flags_m, seqs (lhs @ [Grp 1 (Plus (Cls False [CSpace, CChar CHR 0x0A, CChar CHR ''#'',
                                                       CChar CHR ''{'', CChar CHR ''['']))
                               , ws, Opt (Seq (Chr CHR ''#'') (Star True Dot)), Eol])),
        (flags_m, seqs (lhs @ [Grp 1 (seqs [Chr CHR ''['',
                                            Star True (Cls False [CChar CHR '']'']),
                                            Chr CHR '']'']), ws, Eol])),
        (flags_m, seqs (lhs @ [Grp 1 (seqs [Chr CHR ''{'',
                                            Star False (Cls True [CSpace, CNonSpace]),
                                            Chr CHR ''}'']), ws, Alt (Chr CHR 0x0A) Eol])),
        (flags_m, seqs (lhs @ [Grp 1 (Alt (Lit ''true'') (Lit ''false'')), ws, Eol])),
        (flags_m, seqs (lhs @ [Grp 1 (Seq (Plus (Cls True [CDigit]))
                                          (Opt (Seq (Chr CHR ''.'') (Plus (Cls True [CDigit]))))),
                               ws, Eol])),
        (flags_m, seqs (lhs @ [Lit ''<<'', Opt (Chr CHR ''-''), ws,
                               Grp 1 (Plus (Cls True [CWord])), ws, Chr CHR 0x0A,
                               Grp 2 (Star False (Cls True [CSpace, CNonSpace])),
                               Bol, ws, Bref 1, ws, Eol])) ])"

fun first_match :: "(flags \<times> re) list \<Rightarrow> string \<Rightarrow> rmatch_result option" where
  \<comment> \<open>\<open>for (const pattern of patterns) { const match = pattern.exec(content); if (match) \<dots>\<close>\<close>
  "first_match [] content = None"
| "first_match ((f, r) # ps) content =
     (case exec f r content of Some m \<Rightarrow> Some m | None \<Rightarrow> first_match ps content)"

definition parseHclVariable :: "env \<Rightarrow> string \<Rightarrow> string \<Rightarrow> string option" where
  "parseHclVariable e content variableName =
     (case first_match (hcl_patterns variableName) content of
        None \<Rightarrow> None
      | Some m \<Rightarrow>
          (case (case group m 2 of Some v2 \<Rightarrow> Some v2 | None \<Rightarrow> group m 1) of
             None \<Rightarrow> None
           | Some val \<Rightarrow>
               if startsWith (trim val) ''{''
               then Some (parseComplexObject e val content variableName)
               else Some (cleanValue val)))"


subsection \<open>Blocks\<close>

definition re_block_body :: "nat \<Rightarrow> re" where
  \<comment> \<open>\<open>([^}]*(?:\{[^}]*\}[^}]*)*)\<close> as group \<open>n\<close>: a body with at most one level of nested
     braces\<close>
  "re_block_body n =
     Grp n (Seq (Star True (Cls False [CChar CHR ''}'']))
                (Star True (seqs [Chr CHR ''{'', Star True (Cls False [CChar CHR ''}'']),
                                  Chr CHR ''}'', Star True (Cls False [CChar CHR ''}''])])))"

definition re_locals :: re where
  \<comment> \<open>\<open>/locals\s*\{([^}]*(?:\{[^}]*\}[^}]*)*)\}/gs\<close>\<close>
  "re_locals = seqs [Lit ''locals'', ws, Chr CHR ''{'', re_block_body 1, Chr CHR ''}'']"

fun first_some :: "('a \<Rightarrow> 'b option) \<Rightarrow> 'a list \<Rightarrow> 'b option" where
  \<comment> \<open>a loop that returns at the first element giving a value\<close>
  "first_some g [] = None"
| "first_some g (x # xs) = (case g x of Some y \<Rightarrow> Some y | None \<Rightarrow> first_some g xs)"

definition parseLocalsBlock :: "env \<Rightarrow> string \<Rightarrow> string \<Rightarrow> string option" where
  "parseLocalsBlock e content variableName =
     first_some
       (\<lambda>m. case group m 1 of
               None \<Rightarrow> None
             | Some localsContent \<Rightarrow> parseHclVariable e localsContent variableName)
       (exec_all flags_s re_locals content)"

definition re_named_block :: "string \<Rightarrow> string \<Rightarrow> re" where
  \<comment> \<open>\<open>KEYWORD\s+"NAME"\s*\{([^}]*(?:\{[^}]*\}[^}]*)*)\}\<close>, gs\<close>
  "re_named_block keyword name =
     seqs [Lit keyword, Plus (Cls True [CSpace]), Chr CHR ''\"'', escapeRegex name, Chr CHR ''\"'',
           ws, Chr CHR ''{'', re_block_body 1, Chr CHR ''}'']"

definition re_value_line :: re where
  \<comment> \<open>\<open>/value\s*=\s*([^\n]*)/g\<close>\<close>
  "re_value_line =
     seqs [Lit ''value'', ws, Chr CHR ''='', ws, Grp 1 (Star True (Cls False [CChar CHR 0x0A]))]"

definition re_value_object :: re where
  \<comment> \<open>\<open>/value\s*=\s*\{([^}]*(?:\{[^}]*\}[^}]*)*)\}/gs\<close>\<close>
  "re_value_object =
     seqs [Lit ''value'', ws, Chr CHR ''='', ws, Chr CHR ''{'', re_block_body 1, Chr CHR ''}'']"

definition parseOutputBlock :: "string \<Rightarrow> string \<Rightarrow> string option" where
  "parseOutputBlock content outputName =
     (case exec flags_s (re_named_block ''output'' outputName) content of
        None \<Rightarrow> None
      | Some m \<Rightarrow>
          (case group m 1 of
             None \<Rightarrow> None
           | Some outputContent \<Rightarrow>
               (case exec no_flags re_value_line outputContent of
                  Some valueMatch \<Rightarrow>
                    Some (cleanValue (case group valueMatch 1 of None \<Rightarrow> [] | Some t \<Rightarrow> t))
                | None \<Rightarrow>
                    (case exec flags_s re_value_object outputContent of
                       Some multi \<Rightarrow>
                         Some (''{'' @ (case group multi 1 of None \<Rightarrow> [] | Some t \<Rightarrow> t) @ ''}'')
                     | None \<Rightarrow> None))))"

definition re_source :: re where
  \<comment> \<open>\<open>/source\s*=\s*"([^"]*)"/\<close>\<close>
  "re_source =
     seqs [Lit ''source'', ws, Chr CHR ''='', ws, Chr CHR ''\"'',
           Grp 1 (Star True (Cls False [CChar CHR ''\"''])), Chr CHR ''\"'']"

definition re_module_line :: re where
  \<comment> \<open>\<open>/^\s*(\w+)\s*=\s*(.+)$/\<close>\<close>
  "re_module_line =
     seqs [Bol, ws, Grp 1 (Plus (Cls True [CWord])), ws, Chr CHR ''='', ws, Grp 2 (Plus Dot), Eol]"

fun parseModuleVariables_loop ::
  "string list \<Rightarrow> (string \<times> string) list \<Rightarrow> (string \<times> string) list" where
  "parseModuleVariables_loop [] variables = variables"
| "parseModuleVariables_loop (line # ls) variables =
     (let trimmedLine = trim line in
      if startsWith trimmedLine ''source'' \<or> startsWith trimmedLine ''#''
         \<or> \<not> includes_str trimmedLine ''=''
      then parseModuleVariables_loop ls variables
      else
        (case exec no_flags re_module_line trimmedLine of
           None \<Rightarrow> parseModuleVariables_loop ls variables
         | Some m \<Rightarrow>
             (case (group m 1, group m 2) of
                (Some key, Some v) \<Rightarrow>
                  \<comment> \<open>\<open>variables[key] = value\<close>; on a plain object the key \<open>__proto__\<close> sets
                     the prototype, and a string is not accepted as one\<close>
                  if key = ''__proto__'' then parseModuleVariables_loop ls variables
                  else parseModuleVariables_loop ls ((key, cleanValue v) # variables)
              | _ \<Rightarrow> parseModuleVariables_loop ls variables)))"

definition parseModuleVariables :: "string \<Rightarrow> (string \<times> string) list" where
  "parseModuleVariables moduleContent =
     parseModuleVariables_loop (split_on CHR 0x0A moduleContent) []"

definition parseModuleBlock :: "string \<Rightarrow> string \<Rightarrow> ModuleCall option" where
  "parseModuleBlock content moduleName =
     (case exec flags_s (re_named_block ''module'' moduleName) content of
        None \<Rightarrow> None
      | Some m \<Rightarrow>
          (case group m 1 of
             None \<Rightarrow> None
           | Some moduleContent \<Rightarrow>
               (case exec no_flags re_source moduleContent of
                  None \<Rightarrow> None
                | Some sourceMatch \<Rightarrow>
                    Some \<lparr>mc_name = moduleName,
                          mc_source = (case group sourceMatch 1 of None \<Rightarrow> [] | Some t \<Rightarrow> t),
                          mc_variables = parseModuleVariables moduleContent\<rparr>)))"

subsection \<open>References inside a value\<close>

definition reference_patterns :: "re list" where
  \<comment> \<open>\<open>/\bvar\.(\w+)/g\<close>, \<open>/\blocal\.(\w+)/g\<close>, \<open>/\bmodule\.([\w.]+)/g\<close>,
     \<open>/\bdata\.([\w.]+)\.([\w.]+)/g\<close>\<close>
  "reference_patterns =
     [seqs [Wb, Lit ''var.'', Grp 1 (Plus (Cls True [CWord]))],
      seqs [Wb, Lit ''local.'', Grp 1 (Plus (Cls True [CWord]))],
      seqs [Wb, Lit ''module.'', Grp 1 (Plus (Cls True [CWord, CChar CHR ''.'']))],
      seqs [Wb, Lit ''data.'', Grp 1 (Plus (Cls True [CWord, CChar CHR ''.''])), Chr CHR ''.'',
            Grp 2 (Plus (Cls True [CWord, CChar CHR ''.'']))]]"

fun unique :: "'a list \<Rightarrow> 'a list" where
  \<comment> \<open>\<open>[...new Set(xs)]\<close>: the first occurrence of each element, in order\<close>
  "unique [] = []"
| "unique (x # xs) = x # unique (filter (\<lambda>y. y \<noteq> x) xs)"

definition extractVariableReferences :: "string \<Rightarrow> string list" where
  \<comment> \<open>for the \<open>data\<close> pattern the source rebuilds \<open>data.${match[1]}.${match[2]}\<close>, which is
     the matched text\<close>
  "extractVariableReferences v =
     unique (concat (map (\<lambda>r. map m_text (exec_all no_flags r v)) reference_patterns))"

section \<open>Paths\<close>

text \<open>
  The functions of the platform's \<open>path\<close> module that the resolver calls, for POSIX paths:
  \<open>normalizeString\<close> drops empty and \<open>.\<close> segments and resolves \<open>..\<close> against the segments
  before it; \<open>normalize\<close> keeps a leading and a trailing slash; \<open>dirname\<close> cuts the last
  segment without normalizing; \<open>resolve\<close> goes from the right until the path is absolute,
  then to the working directory.
\<close>

fun normalizeSegments :: "bool \<Rightarrow> string list \<Rightarrow> string list \<Rightarrow> string list" where
  \<comment> \<open>\<open>res\<close> holds the segments kept so far, the last one first\<close>
  "normalizeSegments allowAboveRoot [] res = rev res"
| "normalizeSegments allowAboveRoot (seg # segs) res =
     (if seg = [] \<or> seg = ''.'' then normalizeSegments allowAboveRoot segs res
      else if seg = ''..'' then
        (case res of
           [] \<Rightarrow> normalizeSegments allowAboveRoot segs (if allowAboveRoot then [''..''] else [])
         | r # rs \<Rightarrow>
             if r = ''..''
             then normalizeSegments allowAboveRoot segs
                    (if allowAboveRoot then ''..'' # res else res)
             else normalizeSegments allowAboveRoot segs rs)
      else normalizeSegments allowAboveRoot segs (seg # res))"

definition normalizeString :: "string \<Rightarrow> bool \<Rightarrow> string" where
  "normalizeString p allowAboveRoot =
     join ''/'' (normalizeSegments allowAboveRoot (split_on CHR ''/'' p) [])"

definition path_normalize :: "string \<Rightarrow> string" where
  "path_normalize p =
     (if p = [] then ''.''
      else
        let isAbsolute = (hd p = CHR ''/'');
            trailingSeparator = (last p = CHR ''/'');
            q = normalizeString p (\<not> isAbsolute)
        in if q = [] then (if isAbsolute then ''/'' else if trailingSeparator then ''./'' else ''.'')
           else (if isAbsolute then ''/'' else []) @ q @ (if trailingSeparator then ''/'' else []))"

definition path_dirname :: "string \<Rightarrow> string" where
  "path_dirname p =
     (if p = [] then ''.''
      else
        let hasRoot = (hd p = CHR ''/'');
            r = dropWhile (\<lambda>c. c \<noteq> CHR ''/'')
                  (dropWhile (\<lambda>c. c = CHR ''/'') (rev (tl p)))
        in if r = [] then (if hasRoot then ''/'' else ''.'')
           else if hasRoot \<and> length r = 1 then ''//''
           else take (length r) p)"

definition path_join :: "string \<Rightarrow> string \<Rightarrow> string" where
  \<comment> \<open>\<open>path.join(a, b)\<close>\<close>
  "path_join a b =
     (let joined = (if a = [] then b else if b = [] then a else a @ ''/'' @ b)
      in if joined = [] then ''.'' else path_normalize joined)"

definition path_resolve :: "env \<Rightarrow> string \<Rightarrow> string \<Rightarrow> string" where
  \<comment> \<open>\<open>path.resolve(a, b)\<close>\<close>
  "path_resolve e a b =
     (let r1 = (if b = [] then [] else b @ ''/'');
          abs1 = (b \<noteq> [] \<and> hd b = CHR ''/'');
          r2 = (if abs1 \<or> a = [] then r1 else a @ ''/'' @ r1);
          abs2 = (abs1 \<or> (a \<noteq> [] \<and> hd a = CHR ''/''));
          r3 = (if abs2 \<or> cwd e = [] then r2 else cwd e @ ''/'' @ r2);
          abs3 = (abs2 \<or> (cwd e \<noteq> [] \<and> hd (cwd e) = CHR ''/''));
          q = normalizeString r3 (\<not> abs3)
      in if abs3 then ''/'' @ q else if q \<noteq> [] then q else ''.'')"


section \<open>The cache (\<open>utils/cache.ts\<close>)\<close>

record CacheEntry =
  ce_value :: string
  timestamp :: int
  accessCount :: nat
  lastAccessed :: int

text \<open>
  The state of one resolver: the cache (a \<open>Map\<close>, so the entries keep the order in which
  their keys were first set), the table of resolved module paths, the number of times the
  clock has been read, and the \<open>visited\<close> set of the request being served, which the
  source passes by reference through every call.
\<close>

record rstate =
  cache :: "(string \<times> CacheEntry) list"
  resolvedModulePaths :: "(string \<times> string) list"
  ticks :: nat
  visited :: "string set"

definition TTL :: int where
  "TTL = 60000"

definition MAX_SIZE :: nat where
  "MAX_SIZE = 1000"

definition Date_now :: "env \<Rightarrow> rstate \<Rightarrow> int \<times> rstate" where
  "Date_now e s = (clock e (ticks s), s\<lparr>ticks := ticks s + 1\<rparr>)"

definition cache_get :: "env \<Rightarrow> string \<Rightarrow> rstate \<Rightarrow> string option \<times> rstate" where
  "cache_get e key s =
     (case map_of (cache s) key of
        None \<Rightarrow> (None, s)
      | Some entry \<Rightarrow>
          (case Date_now e s of
             (now, s1) \<Rightarrow>
               if now - timestamp entry > TTL
               then (None, s1\<lparr>cache := AList.delete key (cache s1)\<rparr>)
               else (Some (ce_value entry),
                     s1\<lparr>cache := AList.update key
                          (entry\<lparr>accessCount := accessCount entry + 1, lastAccessed := now\<rparr>)
                          (cache s1)\<rparr>)))"

fun lru_scan :: "(string \<times> CacheEntry) list \<Rightarrow> string option \<Rightarrow> int \<Rightarrow> string option" where
  \<comment> \<open>the loop of \<open>evictLeastRecentlyUsed\<close>\<close>
  "lru_scan [] lruKey lruTimestamp = lruKey"
| "lru_scan ((key, entry) # es) lruKey lruTimestamp =
     (if lastAccessed entry < lruTimestamp
      then lru_scan es (Some key) (lastAccessed entry)
      else lru_scan es lruKey lruTimestamp)"

definition evictLeastRecentlyUsed :: "env \<Rightarrow> rstate \<Rightarrow> rstate" where
  "evictLeastRecentlyUsed e s =
     (case Date_now e s of
        (now, s1) \<Rightarrow>
          (case lru_scan (cache s1) None now of
             None \<Rightarrow> s1
           | Some lruKey \<Rightarrow>
               if lruKey = [] then s1 else s1\<lparr>cache := AList.delete lruKey (cache s1)\<rparr>))"

definition cache_set :: "env \<Rightarrow> string \<Rightarrow> string \<Rightarrow> rstate \<Rightarrow> rstate" where
  "cache_set e key v s =
     (let s1 = (if length (cache s) \<ge> MAX_SIZE then evictLeastRecentlyUsed e s else s)
      in case Date_now e s1 of
           (now, s2) \<Rightarrow>
             s2\<lparr>cache := AList.update key
                  \<lparr>ce_value = v, timestamp = now, accessCount = 1, lastAccessed = now\<rparr>
                  (cache s2)\<rparr>)"

definition initial :: rstate where
  \<comment> \<open>a resolver that has just been constructed\<close>
  "initial = \<lparr>cache = [], resolvedModulePaths = [], ticks = 0, visited = {}\<rparr>"

section \<open>Exceptions\<close>

text \<open>
  A computation runs on the resolver state and either returns (\<open>Inr\<close>) or throws (\<open>Inl\<close>).
  \<open>bindM\<close> is sequencing, through which an exception propagates; \<open>tryCatch\<close> and
  \<open>tryFinally\<close> are the statements of the same name.
\<close>

type_synonym 'a M = "rstate \<Rightarrow> (error + 'a) \<times> rstate"

definition ret :: "'a \<Rightarrow> 'a M" where
  "ret x s = (Inr x, s)"

definition throw :: "error \<Rightarrow> 'a M" where
  "throw err s = (Inl err, s)"

definition bindM :: "'a M \<Rightarrow> ('a \<Rightarrow> 'b M) \<Rightarrow> 'b M" where
  "bindM m g s = (case m s of (Inl err, s1) \<Rightarrow> (Inl err, s1) | (Inr x, s1) \<Rightarrow> g x s1)"

definition tryCatch :: "'a M \<Rightarrow> (error \<Rightarrow> 'a M) \<Rightarrow> 'a M" where
  "tryCatch m h s = (case m s of (Inl err, s1) \<Rightarrow> h err s1 | (Inr x, s1) \<Rightarrow> (Inr x, s1))"

definition tryFinally :: "'a M \<Rightarrow> (rstate \<Rightarrow> rstate) \<Rightarrow> 'a M" where
  "tryFinally m fin s = (case m s of (r, s1) \<Rightarrow> (r, fin s1))"

definition getM :: "env \<Rightarrow> string \<Rightarrow> string option M" where
  \<comment> \<open>\<open>this.cache.get(key)\<close>, which catches whatever it throws\<close>
  "getM e key s = (case cache_get e key s of (r, s1) \<Rightarrow> (Inr r, s1))"

definition setM :: "env \<Rightarrow> string \<Rightarrow> string \<Rightarrow> unit M" where
  \<comment> \<open>\<open>this.cache.set(key, value)\<close>\<close>
  "setM e key v s = (Inr (), cache_set e key v s)"

definition readdirM :: "env \<Rightarrow> string \<Rightarrow> string list M" where
  "readdirM e dir s = (case readdir e dir of None \<Rightarrow> (Inl IOError, s) | Some fs \<Rightarrow> (Inr fs, s))"

definition readFileM :: "env \<Rightarrow> string \<Rightarrow> string M" where
  "readFileM e p s = (case readFile e p of None \<Rightarrow> (Inl IOError, s) | Some c \<Rightarrow> (Inr c, s))"


section \<open>The resolver (\<open>resolvers/variableResolver.ts\<close>)\<close>

function show_nat :: "nat \<Rightarrow> string" where
  \<comment> \<open>a depth inside a template string\<close>
  "show_nat n =
     (if n < 10 then [char_of (of_char CHR ''0'' + n)]
      else show_nat (n div 10) @ [char_of (of_char CHR ''0'' + n mod 10)])"
  by pat_completeness auto
termination
  by (relation "measure id") auto

definition maxRecursionDepth :: nat where
  "maxRecursionDepth = 10"

definition isWithinWorkspace :: "env \<Rightarrow> string \<Rightarrow> bool" where
  "isWithinWorkspace e dirPath =
     (let normalizedDir = path_normalize dirPath;
          normalizedWorkspace = path_normalize (workspaceRoot e)
      in startsWith normalizedDir normalizedWorkspace)"

subsection \<open>Formatting a value that was found\<close>

definition re_comma_outside_quotes :: re where
  \<comment> \<open>\<open>/,\s*(?=[^"]*(?:"[^"]*"[^"]*)*$)/g\<close>\<close>
  "re_comma_outside_quotes =
     seqs [Chr CHR '','', ws,
           Ahead (seqs [Star True (Cls False [CChar CHR ''\"'']),
                        Star True (seqs [Chr CHR ''\"'', Star True (Cls False [CChar CHR ''\"'']),
                                         Chr CHR ''\"'', Star True (Cls False [CChar CHR ''\"''])]),
                        Eol])]"

fun formatHclStructure_loop :: "string list \<Rightarrow> nat \<Rightarrow> string list" where
  "formatHclStructure_loop [] indentLevel = []"
| "formatHclStructure_loop (line # ls) indentLevel =
     (let trimmedLine = trim line;
          indentLevel = (if includes_str trimmedLine ''}'' \<or> includes_str trimmedLine '']''
                         then indentLevel - 1 else indentLevel)
      in (repeat_str ''  '' indentLevel @ trimmedLine)
         # formatHclStructure_loop ls
             (if includes_str trimmedLine ''{'' \<or> includes_str trimmedLine ''[''
              then indentLevel + 1 else indentLevel))"

definition formatHclStructure :: "string \<Rightarrow> string" where
  "formatHclStructure hclStr =
     (if hclStr = [] then hclStr
      else
        let formatted = replace_all no_flags re_comma_outside_quotes 0
                          ('','' @ [CHR 0x0A] @ ''  '') hclStr
        in join [CHR 0x0A] (formatHclStructure_loop (split_on CHR 0x0A formatted) 0))"

definition looksLikeJson :: "env \<Rightarrow> string \<Rightarrow> bool" where
  "looksLikeJson e str = (JSON_parse e str \<noteq> None)"

definition preserveComplexStructure :: "env \<Rightarrow> string \<Rightarrow> string" where
  "preserveComplexStructure e v =
     (if v = [] then v
      else
        let trimmed = trim v in
        if (startsWith trimmed ''{'' \<and> endsWith trimmed ''}'')
           \<or> (startsWith trimmed ''['' \<and> endsWith trimmed '']'')
        then
          (if looksLikeJson e trimmed
           then (case JSON_parse e trimmed of
                   Some parsed \<Rightarrow> JSON_stringify e parsed
                 | None \<Rightarrow> trimmed)
           else formatHclStructure trimmed)
        else trimmed)"

subsection \<open>Looking in one directory\<close>

fun findInTfvarsFiles_loop ::
  "env \<Rightarrow> string \<Rightarrow> string \<Rightarrow> string \<Rightarrow> string list \<Rightarrow> string option M" where
  "findInTfvarsFiles_loop e variableName dir cacheKey [] = ret None"
| "findInTfvarsFiles_loop e variableName dir cacheKey (file # files) =
     bindM
       (tryCatch
          (bindM (readFileM e (path_join dir file)) (\<lambda>content.
             case (if endsWith file ''.json''
                   then parseJsonVariable e content variableName
                   else parseHclVariable e content variableName) of
               None \<Rightarrow> ret None
             | Some v \<Rightarrow>
                 bindM (setM e cacheKey (preserveComplexStructure e v)) (\<lambda>_.
                   ret (Some (preserveComplexStructure e v)))))
          (\<lambda>err. ret None))
       (\<lambda>r. case r of
               Some v \<Rightarrow> ret (Some v)
             | None \<Rightarrow> findInTfvarsFiles_loop e variableName dir cacheKey files)"

definition findInTfvarsFiles :: "env \<Rightarrow> string \<Rightarrow> string \<Rightarrow> string option M" where
  "findInTfvarsFiles e variableName dir =
     tryCatch
       (bindM (getM e (''tfvars:'' @ variableName @ '':'' @ dir)) (\<lambda>cached.
          case cached of
            Some c \<Rightarrow> ret (Some c)
          | None \<Rightarrow>
              if \<not> isDirectory e dir then ret None
              else
                bindM (readdirM e dir) (\<lambda>files.
                  findInTfvarsFiles_loop e variableName dir
                    (''tfvars:'' @ variableName @ '':'' @ dir)
                    (filter (\<lambda>f. endsWith f ''.tfvars'' \<or> endsWith f ''.tfvars.json'') files))))
       (\<lambda>err. ret None)"

fun findInTf_loop ::
  "env \<Rightarrow> (string \<Rightarrow> string option) \<Rightarrow> string \<Rightarrow> string \<Rightarrow> string list \<Rightarrow> string option M" where
  \<comment> \<open>the loop over the \<open>.tf\<close> files that \<open>findInLocals\<close> and \<open>findInOutputs\<close> share but for
     the parser they call\<close>
  "findInTf_loop e parse dir cacheKey [] = ret None"
| "findInTf_loop e parse dir cacheKey (file # files) =
     bindM
       (tryCatch
          (bindM (readFileM e (path_join dir file)) (\<lambda>content.
             case parse content of
               None \<Rightarrow> ret None
             | Some v \<Rightarrow> bindM (setM e cacheKey v) (\<lambda>_. ret (Some v))))
          (\<lambda>err. ret None))
       (\<lambda>r. case r of
               Some v \<Rightarrow> ret (Some v)
             | None \<Rightarrow> findInTf_loop e parse dir cacheKey files)"

definition findInTf ::
  "env \<Rightarrow> (string \<Rightarrow> string option) \<Rightarrow> string \<Rightarrow> string \<Rightarrow> string option M" where
  "findInTf e parse cacheKey dir =
     tryCatch
       (bindM (getM e cacheKey) (\<lambda>cached.
          case cached of
            Some c \<Rightarrow> ret (Some c)
          | None \<Rightarrow>
              if \<not> isDirectory e dir then ret None
              else
                bindM (readdirM e dir) (\<lambda>files.
                  findInTf_loop e parse dir cacheKey (filter (\<lambda>f. endsWith f ''.tf'') files))))
       (\<lambda>err. ret None)"

definition findInLocals :: "env \<Rightarrow> string \<Rightarrow> string \<Rightarrow> string option M" where
  "findInLocals e variableName dir =
     findInTf e (\<lambda>content. parseLocalsBlock e content variableName)
       (''locals:'' @ variableName @ '':'' @ dir) dir"

definition findInOutputs :: "env \<Rightarrow> string \<Rightarrow> string \<Rightarrow> string option M" where
  "findInOutputs e variableName dir =
     findInTf e (\<lambda>content. parseOutputBlock content variableName)
       (''outputs:'' @ variableName @ '':'' @ dir) dir"

subsection \<open>Module calls\<close>

fun findModuleCall_loop ::
  "env \<Rightarrow> string \<Rightarrow> string \<Rightarrow> string \<Rightarrow> string list \<Rightarrow> ModuleCall option M" where
  "findModuleCall_loop e moduleName dir cacheKey [] = ret None"
| "findModuleCall_loop e moduleName dir cacheKey (file # files) =
     bindM
       (tryCatch
          (bindM (readFileM e (path_join dir file)) (\<lambda>content.
             case parseModuleBlock content moduleName of
               None \<Rightarrow> ret None
             | Some moduleCall \<Rightarrow>
                 bindM (setM e cacheKey (stringifyModuleCall e moduleCall)) (\<lambda>_.
                   ret (Some moduleCall))))
          (\<lambda>err. ret None))
       (\<lambda>r. case r of
               Some mc \<Rightarrow> ret (Some mc)
             | None \<Rightarrow> findModuleCall_loop e moduleName dir cacheKey files)"

definition findModuleCall :: "env \<Rightarrow> string \<Rightarrow> string \<Rightarrow> ModuleCall option M" where
  "findModuleCall e moduleName dir =
     tryCatch
       (bindM (getM e (''module:'' @ moduleName @ '':'' @ dir)) (\<lambda>cached.
          case cached of
            Some c \<Rightarrow> ret (parseModuleCall e c)
          | None \<Rightarrow>
              if \<not> isDirectory e dir then ret None
              else
                bindM (readdirM e dir) (\<lambda>files.
                  findModuleCall_loop e moduleName dir (''module:'' @ moduleName @ '':'' @ dir)
                    (filter (\<lambda>f. endsWith f ''.tf'') files))))
       (\<lambda>err. ret None)"

definition resolveModulePath :: "env \<Rightarrow> string \<Rightarrow> string \<Rightarrow> string option M" where
  "resolveModulePath e source currentDir s =
     (let cacheKey = ''modulePath:'' @ source @ '':'' @ currentDir in
      case map_of (resolvedModulePaths s) cacheKey of
        Some (c # cs) \<Rightarrow> (Inr (Some (c # cs)), s)
      | _ \<Rightarrow>
          (let resolvedPath =
                 (if startsWith source ''./'' \<or> startsWith source ''../''
                  then (if isDirectory e (path_resolve e currentDir source)
                        then Some (path_resolve e currentDir source) else None)
                  else if startsWith source ''/''
                  then (if isDirectory e (path_join (workspaceRoot e) source)
                        then Some (path_join (workspaceRoot e) source) else None)
                  else if includes_str source ''terraform.io'' \<or> includes_str source ''github.com''
                  then None
                  else (if isDirectory e (path_resolve e currentDir source)
                        then Some (path_resolve e currentDir source) else None))
           in case resolvedPath of
                Some p \<Rightarrow>
                  if p \<noteq> [] \<and> isWithinWorkspace e p
                  then (Inr (Some p),
                        s\<lparr>resolvedModulePaths := AList.update cacheKey p (resolvedModulePaths s)\<rparr>)
                  else (Inr None, s)
              | None \<Rightarrow> (Inr None, s)))"

definition re_module :: re where
  \<comment> \<open>\<open>/module\s+"(\w+)"\s*\{([^}]*(?:\{[^}]*\}[^}]*)*)\}/gs\<close>\<close>
  "re_module =
     seqs [Lit ''module'', Plus (Cls True [CSpace]), Chr CHR ''\"'', Grp 1 (Plus (Cls True [CWord])),
           Chr CHR ''\"'', ws, Chr CHR ''{'', re_block_body 2, Chr CHR ''}'']"

fun findModuleCalls_matches ::
  "env \<Rightarrow> string \<Rightarrow> string \<Rightarrow> rmatch_result list \<Rightarrow> ModuleCall list \<Rightarrow> ModuleCall list M" where
  \<comment> \<open>the \<open>while\<close> loop over the module blocks of one file\<close>
  "findModuleCalls_matches e searchDir targetDir [] moduleCalls = ret moduleCalls"
| "findModuleCalls_matches e searchDir targetDir (m # ms) moduleCalls =
     (case (group m 1, group m 2) of
        (Some moduleName, Some moduleContent) \<Rightarrow>
          (case exec no_flags re_source moduleContent of
             None \<Rightarrow> findModuleCalls_matches e searchDir targetDir ms moduleCalls
           | Some sourceMatch \<Rightarrow>
               bindM (resolveModulePath e
                        (case group sourceMatch 1 of None \<Rightarrow> [] | Some t \<Rightarrow> t) searchDir)
                 (\<lambda>resolvedSource.
                    if resolvedSource = Some targetDir
                    then findModuleCalls_matches e searchDir targetDir ms
                           (moduleCalls @
                            [\<lparr>mc_name = moduleName,
                              mc_source = (case group sourceMatch 1 of None \<Rightarrow> [] | Some t \<Rightarrow> t),
                              mc_variables = parseModuleVariables moduleContent\<rparr>])
                    else findModuleCalls_matches e searchDir targetDir ms moduleCalls))
      | _ \<Rightarrow> findModuleCalls_matches e searchDir targetDir ms moduleCalls)"

fun findModuleCalls_files ::
  "env \<Rightarrow> string \<Rightarrow> string \<Rightarrow> string list \<Rightarrow> ModuleCall list \<Rightarrow> ModuleCall list M" where
  \<comment> \<open>the loop over the files; a file that cannot be read throws to the handler around the
     whole loop, which returns the calls collected until then\<close>
  "findModuleCalls_files e searchDir targetDir [] moduleCalls = ret moduleCalls"
| "findModuleCalls_files e searchDir targetDir (file # files) moduleCalls =
     tryCatch
       (bindM (readFileM e (path_join searchDir file)) (\<lambda>content.
          bindM (findModuleCalls_matches e searchDir targetDir
                   (exec_all flags_s re_module content) moduleCalls)
            (\<lambda>moduleCalls. findModuleCalls_files e searchDir targetDir files moduleCalls)))
       (\<lambda>err. ret moduleCalls)"

definition findModuleCallsToDirectory :: "env \<Rightarrow> string \<Rightarrow> string \<Rightarrow> ModuleCall list M" where
  "findModuleCallsToDirectory e searchDir targetDir =
     tryCatch
       (if \<not> isDirectory e searchDir then ret []
        else
          bindM (readdirM e searchDir) (\<lambda>files.
            findModuleCalls_files e searchDir targetDir (filter (\<lambda>f. endsWith f ''.tf'') files) []))
       (\<lambda>err. ret [])"


subsection \<open>Resolution\<close>

fun re_of_reference :: "bool \<Rightarrow> string \<Rightarrow> re" where
  \<comment> \<open>the pattern text \<open>varRef.replace('.', '\\.')\<close> compiled: \<open>replace\<close> with a string
     escapes the first dot only, so every later dot is the wildcard; a reference is made
     of word characters and dots\<close>
  "re_of_reference first_done [] = Eps"
| "re_of_reference first_done (c # cs) =
     (if c = CHR ''.''
      then Seq (if first_done then Dot else Chr c) (re_of_reference True cs)
      else Seq (Chr c) (re_of_reference first_done cs))"

definition visitKey :: "string \<Rightarrow> string \<Rightarrow> nat \<Rightarrow> string" where
  \<comment> \<open>\<open>`${currentDir}:${variableName}:${depth}`\<close>\<close>
  "visitKey currentDir variableName depth = currentDir @ '':'' @ variableName @ '':'' @ show_nat depth"

definition resolveKey :: "string \<Rightarrow> string \<Rightarrow> nat \<Rightarrow> string" where
  \<comment> \<open>\<open>`resolve:${variableName}:${currentDir}:${depth}`\<close>\<close>
  "resolveKey variableName currentDir depth =
     ''resolve:'' @ variableName @ '':'' @ currentDir @ '':'' @ show_nat depth"

definition enhancedKey :: "string \<Rightarrow> string \<Rightarrow> nat \<Rightarrow> string list \<Rightarrow> string" where
  \<comment> \<open>\<open>`enhanced:${variableName}:${currentDir}:${depth}:${moduleContext.join(',')}`\<close>\<close>
  "enhancedKey variableName currentDir depth moduleContext =
     ''enhanced:'' @ variableName @ '':'' @ currentDir @ '':'' @ show_nat depth @ '':''
       @ join '','' moduleContext"

definition found :: "env \<Rightarrow> string \<Rightarrow> string \<Rightarrow> string option M" where
  \<comment> \<open>\<open>this.cache.set(cacheKey, value); return value;\<close>\<close>
  "found e cacheKey v = bindM (setM e cacheKey v) (\<lambda>_. ret (Some v))"

function
  resolveVariableValue :: "env \<Rightarrow> string \<Rightarrow> string \<Rightarrow> nat \<Rightarrow> string option M" and
  resolveModuleOutput :: "env \<Rightarrow> string \<Rightarrow> string \<Rightarrow> nat \<Rightarrow> string option M" and
  resolveReferencesInValue :: "env \<Rightarrow> string \<Rightarrow> string \<Rightarrow> nat \<Rightarrow> string M" and
  resolveReferencesInValue_loop :: "env \<Rightarrow> string list \<Rightarrow> string \<Rightarrow> string \<Rightarrow> nat \<Rightarrow> string M" and
  resolveVariableValueEnhanced ::
    "env \<Rightarrow> string \<Rightarrow> string \<Rightarrow> nat \<Rightarrow> string list \<Rightarrow> string option M" and
  resolveAsModuleInput :: "env \<Rightarrow> string \<Rightarrow> string \<Rightarrow> nat \<Rightarrow> string option M" and
  findVariableInParentModule ::
    "env \<Rightarrow> string \<Rightarrow> string \<Rightarrow> string \<Rightarrow> nat \<Rightarrow> string option M" and
  moduleInputs_loop :: "env \<Rightarrow> string \<Rightarrow> string \<Rightarrow> nat \<Rightarrow> ModuleCall list \<Rightarrow> string option M" and
  resolveVariableReference :: "env \<Rightarrow> string \<Rightarrow> string \<Rightarrow> nat \<Rightarrow> string option M" and
  resolveNestedReferences :: "env \<Rightarrow> string \<Rightarrow> string \<Rightarrow> nat \<Rightarrow> string M" and
  resolveNestedReferences_loop :: "env \<Rightarrow> string list \<Rightarrow> string \<Rightarrow> string \<Rightarrow> nat \<Rightarrow> string M"
where
  "resolveVariableValue e variableName currentDir depth s =
     (if depth > maxRecursionDepth then (Inr None, s)
      else
        bindM (getM e (resolveKey variableName currentDir depth)) (\<lambda>cached.
          case cached of
            Some c \<Rightarrow> ret (Some c)
          | None \<Rightarrow> (\<lambda>s.
              if visitKey currentDir variableName depth \<in> visited s then (Inr None, s)
              else
                tryFinally
                  (tryCatch
                     (bindM (findInTfvarsFiles e variableName currentDir) (\<lambda>r.
                        case r of
                          Some v \<Rightarrow> found e (resolveKey variableName currentDir depth) v
                        | None \<Rightarrow>
                     bindM (findInLocals e variableName currentDir) (\<lambda>r.
                        case r of
                          Some v \<Rightarrow> found e (resolveKey variableName currentDir depth) v
                        | None \<Rightarrow>
                     bindM (findInOutputs e variableName currentDir) (\<lambda>r.
                        case r of
                          Some v \<Rightarrow> found e (resolveKey variableName currentDir depth) v
                        | None \<Rightarrow>
                     bindM (if startsWith variableName ''module.''
                            then resolveModuleOutput e variableName currentDir (depth + 1)
                            else ret None) (\<lambda>r.
                        case r of
                          Some v \<Rightarrow> found e (resolveKey variableName currentDir depth) v
                        | None \<Rightarrow>
                            if path_dirname currentDir \<noteq> currentDir
                               \<and> isWithinWorkspace e (path_dirname currentDir)
                            then
                              bindM (resolveVariableValue e variableName (path_dirname currentDir)
                                       (depth + 1)) (\<lambda>r.
                                case r of
                                  Some v \<Rightarrow> found e (resolveKey variableName currentDir depth) v
                                | None \<Rightarrow> ret None)
                            else ret None)))))
                     (\<lambda>err. ret None))
                  (\<lambda>s. s\<lparr>visited := visited s - {visitKey currentDir variableName depth}\<rparr>)
                  (s\<lparr>visited := insert (visitKey currentDir variableName depth) (visited s)\<rparr>)))
          s)"
| "resolveModuleOutput e variableRef currentDir depth s =
     tryCatch
       (if length (split_on CHR ''.'' variableRef) < 3
           \<or> hd (split_on CHR ''.'' variableRef) \<noteq> ''module''
        then ret None
        else
          bindM (findModuleCall e (split_on CHR ''.'' variableRef ! 1) currentDir) (\<lambda>moduleCall.
            case moduleCall of
              None \<Rightarrow> ret None
            | Some mc \<Rightarrow>
                bindM (resolveModulePath e (mc_source mc) currentDir) (\<lambda>modulePath.
                  case modulePath of
                    None \<Rightarrow> ret None
                  | Some mp \<Rightarrow>
                      if mp = [] then ret None
                      else
                        bindM (findInOutputs e
                                 (join ''.'' (drop 2 (split_on CHR ''.'' variableRef))) mp)
                          (\<lambda>outputValue.
                             case outputValue of
                               Some ov \<Rightarrow>
                                 bindM (resolveReferencesInValue e ov mp (depth + 1)) (\<lambda>v.
                                   ret (Some v))
                             | None \<Rightarrow> ret None))))
       (\<lambda>err. ret None) s"
| "resolveReferencesInValue e v contextDir depth s =
     (if v = [] then (Inr v, s)
      else
        tryCatch
          (resolveReferencesInValue_loop e (extractVariableReferences v) v contextDir depth)
          (\<lambda>err. ret v) s)"
| "resolveReferencesInValue_loop e varRefs resolvedValue contextDir depth s =
     (case varRefs of
        [] \<Rightarrow> (Inr resolvedValue, s)
      | varRef # rest_refs \<Rightarrow>
          bindM (resolveVariableValue e varRef contextDir depth) (\<lambda>resolvedRef.
            resolveReferencesInValue_loop e rest_refs
              (case resolvedRef of
                 Some r \<Rightarrow>
                   replace_all no_flags (seqs [Wb, re_of_reference False varRef, Wb]) 0 r
                     resolvedValue
               | None \<Rightarrow> resolvedValue)
              contextDir depth) s)"
| "resolveVariableValueEnhanced e variableName currentDir depth moduleContext s =
     (if depth > maxRecursionDepth then (Inr None, s)
      else
        bindM (getM e (enhancedKey variableName currentDir depth moduleContext)) (\<lambda>cached.
          case cached of
            Some c \<Rightarrow> ret (Some c)
          | None \<Rightarrow> (\<lambda>s.
              if visitKey currentDir variableName depth \<in> visited s then (Inr None, s)
              else
                tryFinally
                  (tryCatch
                     (bindM (findInTfvarsFiles e variableName currentDir) (\<lambda>r.
                        case r of
                          Some v \<Rightarrow>
                            bindM (resolveNestedReferences e v currentDir (depth + 1))
                              (found e (enhancedKey variableName currentDir depth moduleContext))
                        | None \<Rightarrow>
                     bindM (findInLocals e variableName currentDir) (\<lambda>r.
                        case r of
                          Some v \<Rightarrow>
                            bindM (resolveNestedReferences e v currentDir (depth + 1))
                              (found e (enhancedKey variableName currentDir depth moduleContext))
                        | None \<Rightarrow>
                     bindM (findInOutputs e variableName currentDir) (\<lambda>r.
                        case r of
                          Some v \<Rightarrow>
                            bindM (resolveNestedReferences e v currentDir (depth + 1))
                              (found e (enhancedKey variableName currentDir depth moduleContext))
                        | None \<Rightarrow>
                     bindM (if length moduleContext = 0
                            then resolveAsModuleInput e variableName currentDir (depth + 1)
                            else ret None) (\<lambda>r.
                        case r of
                          Some v \<Rightarrow>
                            found e (enhancedKey variableName currentDir depth moduleContext) v
                        | None \<Rightarrow>
                     bindM (if startsWith variableName ''module.''
                            then resolveModuleOutput e variableName currentDir (depth + 1)
                            else ret None) (\<lambda>r.
                        case r of
                          Some v \<Rightarrow>
                            bindM (resolveNestedReferences e v currentDir (depth + 1))
                              (found e (enhancedKey variableName currentDir depth moduleContext))
                        | None \<Rightarrow>
                            if path_dirname currentDir \<noteq> currentDir
                               \<and> isWithinWorkspace e (path_dirname currentDir)
                            then
                              bindM (findVariableInParentModule e variableName currentDir
                                       (path_dirname currentDir) (depth + 1)) (\<lambda>r.
                                case r of
                                  Some v \<Rightarrow>
                                    found e
                                      (enhancedKey variableName currentDir depth moduleContext) v
                                | None \<Rightarrow>
                                    bindM (resolveVariableValueEnhanced e variableName
                                             (path_dirname currentDir) (depth + 1) moduleContext) (\<lambda>r.
                                      case r of
                                        Some v \<Rightarrow>
                                          found e
                                            (enhancedKey variableName currentDir depth
                                               moduleContext) v
                                      | None \<Rightarrow> ret None))
                            else ret None))))))
                     (\<lambda>err. ret None))
                  (\<lambda>s. s\<lparr>visited := visited s - {visitKey currentDir variableName depth}\<rparr>)
                  (s\<lparr>visited := insert (visitKey currentDir variableName depth) (visited s)\<rparr>)))
          s)"
| "resolveAsModuleInput e variableName moduleDir depth s =
     tryCatch
       (if \<not> isWithinWorkspace e (path_dirname moduleDir) then ret None
        else
          bindM (findModuleCallsToDirectory e (path_dirname moduleDir) moduleDir) (\<lambda>moduleCalls.
            moduleInputs_loop e variableName (path_dirname moduleDir) depth moduleCalls))
       (\<lambda>err. ret None) s"
| "findVariableInParentModule e variableName currentDir parentDir depth s =
     tryCatch
       (bindM (findModuleCallsToDirectory e parentDir currentDir) (\<lambda>moduleCalls.
          moduleInputs_loop e variableName parentDir depth moduleCalls))
       (\<lambda>err. ret None) s"
| "moduleInputs_loop e variableName parentDir depth moduleCalls s =
     (case moduleCalls of
        [] \<Rightarrow> (Inr None, s)
      | moduleCall # rest_calls \<Rightarrow>
          (case map_of (mc_variables moduleCall) variableName of
             Some (c # cs) \<Rightarrow>
               bindM (resolveVariableReference e (c # cs) parentDir depth) (\<lambda>resolved.
                 case resolved of
                   Some v \<Rightarrow> ret (Some v)
                 | None \<Rightarrow> moduleInputs_loop e variableName parentDir depth rest_calls) s
           | _ \<Rightarrow> moduleInputs_loop e variableName parentDir depth rest_calls s))"
| "resolveVariableReference e reference contextDir depth s =
     tryCatch
       (let cleanRef = trim (filter (\<lambda>c. c \<noteq> CHR 0x27 \<and> c \<noteq> CHR ''\"'') reference) in
        if startsWith cleanRef ''var.''
        then resolveVariableValueEnhanced e (drop 4 cleanRef) contextDir depth []
        else if startsWith cleanRef ''local.''
        then findInLocals e (drop 6 cleanRef) contextDir
        else if startsWith cleanRef ''module.''
        then resolveModuleOutput e cleanRef contextDir depth
        else ret (Some cleanRef))
       (\<lambda>err. ret None) s"
| "resolveNestedReferences e v contextDir depth s =
     (if v = [] then (Inr v, s)
      else
        tryCatch
          (resolveNestedReferences_loop e (extractVariableReferences v) v contextDir depth)
          (\<lambda>err. ret v) s)"
| "resolveNestedReferences_loop e varRefs resolvedValue contextDir depth s =
     (case varRefs of
        [] \<Rightarrow> (Inr resolvedValue, s)
      | varRef # rest_refs \<Rightarrow>
          bindM (resolveVariableReference e varRef contextDir depth) (\<lambda>resolved.
            resolveNestedReferences_loop e rest_refs
              (case resolved of
                 Some r \<Rightarrow>
                   if r \<noteq> varRef
                   then replace_all no_flags (seqs [Wb, escapeRegex varRef, Wb]) 0 r resolvedValue
                   else resolvedValue
               | None \<Rightarrow> resolvedValue)
              contextDir depth) s)"
  by pat_completeness auto
termination
  apply (relation "inv_image (less_than <*lex*> less_than <*lex*> less_than)
    (\<lambda>x. case x of
       Inl (Inl (Inl (e, n, d, k, s))) \<Rightarrow> (11 - k, 0::nat, 0::nat)
     | Inl (Inl (Inr (e, r, d, k, s))) \<Rightarrow> (11 - k, 3, 0)
     | Inl (Inr (Inl (e, v, d, k, s))) \<Rightarrow> (11 - k, 2, 0)
     | Inl (Inr (Inr (Inl (e, rs, v, d, k, s)))) \<Rightarrow> (11 - k, 1, length rs)
     | Inl (Inr (Inr (Inr (e, n, d, k, c, s)))) \<Rightarrow> (11 - k, 0, 0)
     | Inr (Inl (Inl (e, n, d, k, s))) \<Rightarrow> (11 - k, 6, 0)
     | Inr (Inl (Inr (Inl (e, n, d, p, k, s)))) \<Rightarrow> (11 - k, 6, 0)
     | Inr (Inl (Inr (Inr (e, n, p, k, cs, s)))) \<Rightarrow> (11 - k, 5, length cs)
     | Inr (Inr (Inl (e, r, d, k, s))) \<Rightarrow> (11 - k, 4, 0)
     | Inr (Inr (Inr (Inl (e, v, d, k, s)))) \<Rightarrow> (11 - k, 6, 0)
     | Inr (Inr (Inr (Inr (e, rs, v, d, k, s)))) \<Rightarrow> (11 - k, 5, length rs))")
  apply (auto simp: maxRecursionDepth_def)
  done



definition resolveVariableValueEnhanced_default :: "env \<Rightarrow> string \<Rightarrow> string \<Rightarrow> string option M" where
  \<comment> \<open>\<open>resolveVariableValueEnhanced(variableName, currentDir)\<close>\<close>
  "resolveVariableValueEnhanced_default e variableName currentDir s =
     resolveVariableValueEnhanced e variableName currentDir 0 [] (s\<lparr>visited := {}\<rparr>)"


text \<open>
  What a directory itself declares for a name: the first value among its variables files,
  its locals and its outputs, looked up by a resolver that has cached nothing.
\<close>

definition directLookup :: "env \<Rightarrow> string \<Rightarrow> string \<Rightarrow> string option" where
  "directLookup e variableName dir =
     (case fst (findInTfvarsFiles e variableName dir initial) of
        Inr (Some v) \<Rightarrow> Some v
      | _ \<Rightarrow>
          (case fst (findInLocals e variableName dir initial) of
             Inr (Some v) \<Rightarrow> Some v
           | _ \<Rightarrow>
               (case fst (findInOutputs e variableName dir initial) of
                  Inr (Some v) \<Rightarrow> Some v
                | _ \<Rightarrow> None)))"


subsection \<open>Directories without module calls\<close>




section \<open>Example workspaces\<close>

text \<open>
  Concrete platforms for the examples: a file system given by its directories (with their
  listings) and its files (with their contents), a clock that stands still, and
  \<open>JSON.parse\<close> given by its value on the texts an example parses (it throws on text that
  is not JSON, which is all the other text the examples hand to it). No example prints a
  parsed value, and a module call is kept in the cache by its source, the one field that
  is read back.
\<close>

definition example_env ::
  "string \<Rightarrow> (string \<times> string list) list \<Rightarrow> (string \<times> string) list \<Rightarrow> (string \<times> json) list \<Rightarrow> env" where
  "example_env root dirs files parsed =
     \<lparr>workspaceRoot = root, cwd = ''/'',
      isDirectory = (\<lambda>d. map_of dirs d \<noteq> None),
      readdir = map_of dirs,
      readFile = map_of files,
      clock = (\<lambda>n. 0),
      JSON_parse = map_of parsed,
      JSON_stringify = (\<lambda>v. []),
      inherited = (\<lambda>v name. None),
      stringifyModuleCall = mc_source,
      parseModuleCall = (\<lambda>t. Some \<lparr>mc_name = [], mc_source = t, mc_variables = []\<rparr>)\<rparr>"

definition lines :: "string list \<Rightarrow> string" where
  \<comment> \<open>a file of the given lines, each ended by a line feed\<close>
  "lines ls = concat (map (\<lambda>l. l @ [CHR 0x0A]) ls)"

definition nested_object_tfvars :: string where
  "nested_object_tfvars = lines [''x = {'', ''  a = {'', ''    b = 1'', ''  }'', ''  c = 2'', ''}'']"

definition json_env :: env where
  "json_env = example_env ''/w'' [] []
     [(''{\"zones\": [\"a\", \"b\", \"c\", \"d\"], \"tags\": {\"a\": 1, \"b\": 2, \"c\": 3, \"d\": 4}, \"region\": \"eu\"}'',
       JObject [(''zones'', JArray [JString ''a'', JString ''b'', JString ''c'', JString ''d'']),
                (''tags'', JObject [(''a'', JNumber ''1''), (''b'', JNumber ''2''),
                                    (''c'', JNumber ''3''), (''d'', JNumber ''4'')]),
                (''region'', JString ''eu'')])]"

definition json_text :: string where
  "json_text = ''{\"zones\": [\"a\", \"b\", \"c\", \"d\"], \"tags\": {\"a\": 1, \"b\": 2, \"c\": 3, \"d\": 4}, \"region\": \"eu\"}''"

definition sibling_env :: env where
  \<comment> \<open>the workspace \<open>/w/app\<close> next to a directory \<open>/w/app2\<close>\<close>
  "sibling_env = example_env ''/w/app'' [(''/w/app'', []), (''/w/app2'', [])] [] []"

definition precedence_env :: env where
  \<comment> \<open>\<open>region\<close> is set by a variables file and by a local, \<open>zone\<close> by a local and by an
     output, \<open>project\<close> by an output only\<close>
  "precedence_env = example_env ''/w''
     [(''/w'', [''main.tf'', ''prod.tfvars''])]
     [(''/w/main.tf'',
         lines [''locals {'', ''region = \"l\"'', ''zone = \"zl\"'', ''}'',
                ''output \"zone\" {'', ''value = 1'', ''}'',
                ''output \"project\" {'', ''value = 2'', ''}'']),
      (''/w/prod.tfvars'', lines [''region = \"us-east-1\"''])]
     []"

definition parent_env :: env where
  \<comment> \<open>\<open>region\<close> is set in the workspace root, and nothing is set in \<open>/w/env\<close>\<close>
  "parent_env = example_env ''/w''
     [(''/w'', [''prod.tfvars'']), (''/w/env'', [])]
     [(''/w/prod.tfvars'', lines [''region = \"us-east-1\"''])]
     []"



definition cycle_env :: env where
  \<comment> \<open>two locals that refer to each other\<close>
  "cycle_env = example_env ''/w''
     [(''/w'', [''main.tf''])]
     [(''/w/main.tf'', lines [''locals {'', ''a = local.b'', ''b = local.a'', ''}''])]
     []"

definition module_env :: env where
  \<comment> \<open>two module calls to \<open>/w/child\<close>; the second assigns the input \<open>size\<close>\<close>
  "module_env = example_env ''/w''
     [(''/w'', [''main.tf'', ''t.tfvars'']), (''/w/child'', [])]
     [(''/w/main.tf'',
         lines [''module \"z\" {'', ''source = \"./child\"'', ''}'',
                ''module \"c\" {'', ''source = \"./child\"'', ''size = var.env_size'', ''}'']),
      (''/w/t.tfvars'', lines [''env_size = \"large\"''])]
     []"

definition two_calls_env :: env where
  \<comment> \<open>two module calls to \<open>/w/child\<close> that both assign the input \<open>size\<close>\<close>
  "two_calls_env = example_env ''/w''
     [(''/w'', [''main.tf'', ''t.tfvars'']), (''/w/child'', [])]
     [(''/w/main.tf'',
         lines [''module \"a\" {'', ''source = \"./child\"'', ''size = \"small\"'', ''}'',
                ''module \"b\" {'', ''source = \"./child\"'', ''size = var.env_size'', ''}'']),
      (''/w/t.tfvars'', lines [''env_size = \"large\"''])]
     []"

definition var_cycle_env :: env where
  \<comment> \<open>two variables that refer to each other\<close>
  "var_cycle_env = example_env ''/w''
     [(''/w'', [''c.tfvars''])]
     [(''/w/c.tfvars'', lines [''a = var.b'', ''b = var.a''])]
     []"






section \<open>Properties\<close>

declare rmatch.simps [simp del] exec_all_from.simps [simp del] match_all_from.simps [simp del]
  show_nat.simps [simp del]
  resolveVariableValue.simps [simp del] resolveModuleOutput.simps [simp del]
  resolveReferencesInValue.simps [simp del] resolveReferencesInValue_loop.simps [simp del]
  resolveVariableValueEnhanced.simps [simp del] resolveAsModuleInput.simps [simp del]
  findVariableInParentModule.simps [simp del] moduleInputs_loop.simps [simp del]
  resolveVariableReference.simps [simp del] resolveNestedReferences.simps [simp del]
  resolveNestedReferences_loop.simps [simp del]

subsection \<open>Strings and paths\<close>

lemma startsWith_prefix: "startsWith s p \<longleftrightarrow> prefix p s"
proof
  assume "startsWith s p"
  then have "take (length p) s = p" by (simp add: startsWith_def)
  then have "s = p @ drop (length p) s" by (metis append_take_drop_id)
  then show "prefix p s" by (metis prefixI)
next
  assume "prefix p s"
  then obtain t where "s = p @ t" by (auto simp: prefix_def)
  then show "startsWith s p" by (simp add: startsWith_def)
qed

lemma path_resolve_nonempty: "path_resolve e a b \<noteq> []"
  by (simp add: path_resolve_def Let_def)

subsection \<open>Exceptions and the cache\<close>

lemma bindM_Inr: "m s = (Inr x, s1) \<Longrightarrow> bindM m g s = g x s1"
  by (simp add: bindM_def)

lemma bindM_Inl: "m s = (Inl err, s1) \<Longrightarrow> bindM m g s = (Inl err, s1)"
  by (simp add: bindM_def)

lemma bindM_ret [simp]: "bindM (ret x) g s = g x s"
  by (simp add: bindM_def ret_def)

lemma tryCatch_never_throws:
  assumes "\<And>err s1. \<exists>x s2. h err s1 = (Inr x, s2)"
  shows "\<exists>x s2. tryCatch m h s = (Inr x, s2)"
proof (cases "m s")
  case (Pair r s1)
  show ?thesis
  proof (cases r)
    case (Inl err)
    with Pair assms [of err s1] show ?thesis by (auto simp: tryCatch_def)
  next
    case (Inr x)
    with Pair show ?thesis by (simp add: tryCatch_def)
  qed
qed

lemma tryCatch_ret_never_throws: "\<exists>x s2. tryCatch m (\<lambda>err. ret y) s = (Inr x, s2)"
  by (rule tryCatch_never_throws) (simp add: ret_def)


lemma getM_never_throws: "\<exists>x s2. getM e key s = (Inr x, s2)"
  by (cases "cache_get e key s") (simp add: getM_def)


lemma cache_get_miss: "map_of (cache s) key = None \<Longrightarrow> cache_get e key s = (None, s)"
  by (simp add: cache_get_def)

lemma getM_miss: "map_of (cache s) key = None \<Longrightarrow> getM e key s = (Inr None, s)"
  by (simp add: getM_def cache_get_miss)

lemma evict_fields [simp]:
  "visited (evictLeastRecentlyUsed e s) = visited s"
  "resolvedModulePaths (evictLeastRecentlyUsed e s) = resolvedModulePaths s"
  by (auto simp: evictLeastRecentlyUsed_def Date_now_def split: option.splits)

lemma evict_absent:
  "map_of (cache s) k = None \<Longrightarrow> map_of (cache (evictLeastRecentlyUsed e s)) k = None"
  by (auto simp: evictLeastRecentlyUsed_def Date_now_def delete_conv split: option.splits)

lemma cache_set_fields [simp]:
  "visited (cache_set e key v s) = visited s"
  "resolvedModulePaths (cache_set e key v s) = resolvedModulePaths s"
  by (auto simp: cache_set_def Date_now_def Let_def)

lemma cache_set_absent:
  "k \<noteq> key \<Longrightarrow> map_of (cache s) k = None \<Longrightarrow> map_of (cache (cache_set e key v s)) k = None"
  by (auto simp: cache_set_def Date_now_def Let_def update_conv evict_absent)

lemma found_eq: "found e key v s = (Inr (Some v), cache_set e key v s)"
  by (simp add: found_def bindM_def setM_def ret_def)

lemma findInTfvarsFiles_loop_result:
  "\<exists>r. \<forall>s. \<exists>s'. findInTfvarsFiles_loop e n d key fs s = (Inr r, s')
        \<and> (case r of None \<Rightarrow> s' = s | Some v \<Rightarrow> s' = cache_set e key v s)"
proof (induction fs)
  case Nil
  show ?case by (rule exI [of _ None]) (simp add: ret_def)
next
  case (Cons f fs)
  then obtain r where r: "\<And>s. \<exists>s'. findInTfvarsFiles_loop e n d key fs s = (Inr r, s')
        \<and> (case r of None \<Rightarrow> s' = s | Some v \<Rightarrow> s' = cache_set e key v s)" by blast
  let ?p = "case readFile e (path_join d f) of
              None \<Rightarrow> None
            | Some content \<Rightarrow>
                (if endsWith f ''.json'' then parseJsonVariable e content n
                 else parseHclVariable e content n)"
  show ?case
  proof (cases ?p)
    case None
    have "\<And>s. findInTfvarsFiles_loop e n d key (f # fs) s = findInTfvarsFiles_loop e n d key fs s"
      using None
      by (auto simp: bindM_def tryCatch_def readFileM_def ret_def split: option.splits)
    with r show ?thesis by metis
  next
    case (Some v)
    have "\<And>s. findInTfvarsFiles_loop e n d key (f # fs) s
            = (Inr (Some (preserveComplexStructure e v)), cache_set e key (preserveComplexStructure e v) s)"
      using Some
      by (auto simp: bindM_def tryCatch_def readFileM_def ret_def setM_def split: option.splits if_splits)
    then show ?thesis by (intro exI [of _ "Some (preserveComplexStructure e v)"]) simp
  qed
qed

lemma findInTf_loop_result:
  "\<exists>r. \<forall>s. \<exists>s'. findInTf_loop e parse d key fs s = (Inr r, s')
        \<and> (case r of None \<Rightarrow> s' = s | Some v \<Rightarrow> s' = cache_set e key v s)"
proof (induction fs)
  case Nil
  show ?case by (rule exI [of _ None]) (simp add: ret_def)
next
  case (Cons f fs)
  then obtain r where r: "\<And>s. \<exists>s'. findInTf_loop e parse d key fs s = (Inr r, s')
        \<and> (case r of None \<Rightarrow> s' = s | Some v \<Rightarrow> s' = cache_set e key v s)" by blast
  let ?p = "case readFile e (path_join d f) of None \<Rightarrow> None | Some content \<Rightarrow> parse content"
  show ?case
  proof (cases ?p)
    case None
    have "\<And>s. findInTf_loop e parse d key (f # fs) s = findInTf_loop e parse d key fs s"
      using None
      by (auto simp: bindM_def tryCatch_def readFileM_def ret_def split: option.splits)
    with r show ?thesis by metis
  next
    case (Some v)
    have "\<And>s. findInTf_loop e parse d key (f # fs) s = (Inr (Some v), cache_set e key v s)"
      using Some
      by (auto simp: bindM_def tryCatch_def readFileM_def ret_def setM_def split: option.splits)
    then show ?thesis by (intro exI [of _ "Some v"]) simp
  qed
qed

lemma findInTfvarsFiles_cold:
  "\<exists>r. \<forall>s. map_of (cache s) (''tfvars:'' @ n @ '':'' @ d) = None \<longrightarrow>
        (\<exists>s'. findInTfvarsFiles e n d s = (Inr r, s')
           \<and> (case r of None \<Rightarrow> s' = s | Some v \<Rightarrow> s' = cache_set e (''tfvars:'' @ n @ '':'' @ d) v s))"
proof (cases "isDirectory e d")
  case False
  then show ?thesis
    by (intro exI [of _ None])
       (simp add: findInTfvarsFiles_def tryCatch_def bindM_def getM_miss ret_def)
next
  case True
  show ?thesis
  proof (cases "readdir e d")
    case None
    with True show ?thesis
      by (intro exI [of _ None])
         (simp add: findInTfvarsFiles_def tryCatch_def bindM_def getM_miss ret_def readdirM_def)
  next
    case (Some files)
    obtain r where r: "\<And>s. \<exists>s'. findInTfvarsFiles_loop e n d (''tfvars:'' @ n @ '':'' @ d)
          (filter (\<lambda>f. endsWith f ''.tfvars'' \<or> endsWith f ''.tfvars.json'') files) s = (Inr r, s')
        \<and> (case r of None \<Rightarrow> s' = s | Some v \<Rightarrow> s' = cache_set e (''tfvars:'' @ n @ '':'' @ d) v s)"
      using findInTfvarsFiles_loop_result by blast
    show ?thesis
    proof (intro exI [of _ r] allI impI)
      fix s :: rstate assume m: "map_of (cache s) (''tfvars:'' @ n @ '':'' @ d) = None"
      from r [of s] obtain s' where
        "findInTfvarsFiles_loop e n d (''tfvars:'' @ n @ '':'' @ d)
          (filter (\<lambda>f. endsWith f ''.tfvars'' \<or> endsWith f ''.tfvars.json'') files) s = (Inr r, s')"
        and "(case r of None \<Rightarrow> s' = s | Some v \<Rightarrow> s' = cache_set e (''tfvars:'' @ n @ '':'' @ d) v s)"
        by blast
      with True Some m show "\<exists>s'. findInTfvarsFiles e n d s = (Inr r, s')
           \<and> (case r of None \<Rightarrow> s' = s | Some v \<Rightarrow> s' = cache_set e (''tfvars:'' @ n @ '':'' @ d) v s)"
        by (simp add: findInTfvarsFiles_def tryCatch_def bindM_def getM_miss readdirM_def)
    qed
  qed
qed

lemma findInTf_cold:
  "\<exists>r. \<forall>s. map_of (cache s) key = None \<longrightarrow>
        (\<exists>s'. findInTf e parse key d s = (Inr r, s')
           \<and> (case r of None \<Rightarrow> s' = s | Some v \<Rightarrow> s' = cache_set e key v s))"
proof (cases "isDirectory e d")
  case False
  then show ?thesis
    by (intro exI [of _ None])
       (simp add: findInTf_def tryCatch_def bindM_def getM_miss ret_def)
next
  case True
  show ?thesis
  proof (cases "readdir e d")
    case None
    with True show ?thesis
      by (intro exI [of _ None])
         (simp add: findInTf_def tryCatch_def bindM_def getM_miss ret_def readdirM_def)
  next
    case (Some files)
    obtain r where r: "\<And>s. \<exists>s'. findInTf_loop e parse d key
          (filter (\<lambda>f. endsWith f ''.tf'') files) s = (Inr r, s')
        \<and> (case r of None \<Rightarrow> s' = s | Some v \<Rightarrow> s' = cache_set e key v s)"
      using findInTf_loop_result by blast
    show ?thesis
    proof (intro exI [of _ r] allI impI)
      fix s :: rstate assume m: "map_of (cache s) key = None"
      from r [of s] obtain s' where
        "findInTf_loop e parse d key (filter (\<lambda>f. endsWith f ''.tf'') files) s = (Inr r, s')"
        and "(case r of None \<Rightarrow> s' = s | Some v \<Rightarrow> s' = cache_set e key v s)"
        by blast
      with True Some m show "\<exists>s'. findInTf e parse key d s = (Inr r, s')
           \<and> (case r of None \<Rightarrow> s' = s | Some v \<Rightarrow> s' = cache_set e key v s)"
        by (simp add: findInTf_def tryCatch_def bindM_def getM_miss readdirM_def)
    qed
  qed
qed

lemma initial_cold [simp]: "map_of (cache initial) key = None"
  by (simp add: initial_def)

lemma findInTfvarsFiles_cold_None:
  assumes "map_of (cache s) (''tfvars:'' @ n @ '':'' @ d) = None"
    and "fst (findInTfvarsFiles e n d initial) = Inr None"
  shows "findInTfvarsFiles e n d s = (Inr None, s)"
proof -
  obtain r where r: "\<And>s. map_of (cache s) (''tfvars:'' @ n @ '':'' @ d) = None \<Longrightarrow>
        (\<exists>s'. findInTfvarsFiles e n d s = (Inr r, s')
           \<and> (case r of None \<Rightarrow> s' = s | Some v \<Rightarrow> s' = cache_set e (''tfvars:'' @ n @ '':'' @ d) v s))"
    using findInTfvarsFiles_cold by blast
  from r [of initial] assms(2) have "r = None" by auto
  with r [OF assms(1)] show ?thesis by auto
qed

lemma findInTfvarsFiles_cold_Some:
  assumes "map_of (cache s) (''tfvars:'' @ n @ '':'' @ d) = None"
    and "fst (findInTfvarsFiles e n d initial) = Inr (Some v)"
  shows "findInTfvarsFiles e n d s = (Inr (Some v), cache_set e (''tfvars:'' @ n @ '':'' @ d) v s)"
proof -
  obtain r where r: "\<And>s. map_of (cache s) (''tfvars:'' @ n @ '':'' @ d) = None \<Longrightarrow>
        (\<exists>s'. findInTfvarsFiles e n d s = (Inr r, s')
           \<and> (case r of None \<Rightarrow> s' = s | Some v \<Rightarrow> s' = cache_set e (''tfvars:'' @ n @ '':'' @ d) v s))"
    using findInTfvarsFiles_cold by blast
  from r [of initial] assms(2) have "r = Some v" by auto
  with r [OF assms(1)] show ?thesis by auto
qed

lemma findInTf_cold_None:
  assumes "map_of (cache s) key = None"
    and "fst (findInTf e parse key d initial) = Inr None"
  shows "findInTf e parse key d s = (Inr None, s)"
proof -
  obtain r where r: "\<And>s. map_of (cache s) key = None \<Longrightarrow>
        (\<exists>s'. findInTf e parse key d s = (Inr r, s')
           \<and> (case r of None \<Rightarrow> s' = s | Some v \<Rightarrow> s' = cache_set e key v s))"
    using findInTf_cold by blast
  from r [of initial] assms(2) have "r = None" by auto
  with r [OF assms(1)] show ?thesis by auto
qed

lemma findInTf_cold_Some:
  assumes "map_of (cache s) key = None"
    and "fst (findInTf e parse key d initial) = Inr (Some v)"
  shows "findInTf e parse key d s = (Inr (Some v), cache_set e key v s)"
proof -
  obtain r where r: "\<And>s. map_of (cache s) key = None \<Longrightarrow>
        (\<exists>s'. findInTf e parse key d s = (Inr r, s')
           \<and> (case r of None \<Rightarrow> s' = s | Some v \<Rightarrow> s' = cache_set e key v s))"
    using findInTf_cold by blast
  from r [of initial] assms(2) have "r = Some v" by auto
  with r [OF assms(1)] show ?thesis by auto
qed

subsection \<open>Keys\<close>

lemma split_at_last_sep:
  assumes "c \<notin> set x" and "c \<notin> set y" and "a @ c # x = b @ c # y"
  shows "a = b \<and> x = y"
proof -
  from assms(3) have "rev (a @ c # x) = rev (b @ c # y)" by simp
  then have "rev x @ c # rev a = rev y @ c # rev b" by simp
  then have "takeWhile (\<lambda>z. z \<noteq> c) (rev x @ c # rev a) = takeWhile (\<lambda>z. z \<noteq> c) (rev y @ c # rev b)"
    by simp
  moreover have "takeWhile (\<lambda>z. z \<noteq> c) (rev x @ c # rev a) = rev x"
    using assms(1) by (auto simp: takeWhile_tail)
  moreover have "takeWhile (\<lambda>z. z \<noteq> c) (rev y @ c # rev b) = rev y"
    using assms(2) by (auto simp: takeWhile_tail)
  ultimately have "x = y" by simp
  with assms(3) show ?thesis by simp
qed

lemma digit_code: "n < 10 \<Longrightarrow> (of_char (char_of (of_char CHR ''0'' + n :: nat) :: char) :: nat) = 48 + n"
  by simp

lemma digit_char_inj:
  assumes "n < 10" and "m < 10"
    and "char_of (of_char CHR ''0'' + n :: nat) = (char_of (of_char CHR ''0'' + m :: nat) :: char)"
  shows "n = m"
proof -
  have "(of_char (char_of (of_char CHR ''0'' + n :: nat) :: char) :: nat)
      = of_char (char_of (of_char CHR ''0'' + m :: nat) :: char)"
    using assms(3) by (rule arg_cong)
  then have "48 + n = 48 + m"
    by (simp only: digit_code [OF assms(1)] digit_code [OF assms(2)])
  then show ?thesis by simp
qed

lemma digit_char_not_colon:
  assumes "n < 10"
  shows "(char_of (of_char CHR ''0'' + n :: nat) :: char) \<noteq> CHR '':''"
proof
  assume "(char_of (of_char CHR ''0'' + n :: nat) :: char) = CHR '':''"
  then have "(of_char (char_of (of_char CHR ''0'' + n :: nat) :: char) :: nat) = of_char CHR '':''"
    by (rule arg_cong)
  then have "48 + n = (58::nat)"
    by (simp only: digit_code [OF assms]) simp
  with assms show False by simp
qed


lemma show_nat_no_colon: "CHR '':'' \<notin> set (show_nat n)"
proof (induction n rule: show_nat.induct)
  case (1 n)
  show ?case
  proof (cases "n < 10")
    case True
    then have "show_nat n = [char_of (of_char CHR ''0'' + n)]" by (subst show_nat.simps) simp
    with True digit_char_not_colon [of n] show ?thesis by auto
  next
    case False
    then have "show_nat n = show_nat (n div 10) @ [char_of (of_char CHR ''0'' + n mod 10)]"
      by (subst show_nat.simps) simp
    moreover have "(char_of (of_char CHR ''0'' + n mod 10 :: nat) :: char) \<noteq> CHR '':''"
      by (rule digit_char_not_colon) simp
    ultimately show ?thesis using 1 False by auto
  qed
qed

lemma show_nat_small: "n < 10 \<Longrightarrow> show_nat n = [char_of (of_char CHR ''0'' + n)]"
  by (subst show_nat.simps) simp

lemma show_nat_large:
  "\<not> n < 10 \<Longrightarrow> show_nat n = show_nat (n div 10) @ [char_of (of_char CHR ''0'' + n mod 10)]"
  by (subst show_nat.simps) simp

lemma show_nat_nonempty: "show_nat n \<noteq> []"
  by (cases "n < 10") (simp_all add: show_nat_small show_nat_large)

lemma show_nat_inj: "show_nat n = show_nat m \<Longrightarrow> n = m"
proof (induction n arbitrary: m rule: show_nat.induct)
  case (1 n)
  show ?case
  proof (cases "n < 10")
    case True
    show ?thesis
    proof (cases "m < 10")
      case m: True
      from "1.prems" True m
      have "char_of (of_char CHR ''0'' + n :: nat) = (char_of (of_char CHR ''0'' + m :: nat) :: char)"
        by (simp only: show_nat_small list.inject)
      with True m show ?thesis by (rule digit_char_inj)
    next
      case m: False
      have "length (show_nat n) = 1" using True by (simp only: show_nat_small) simp
      moreover have "length (show_nat m) \<ge> 2"
        using show_nat_nonempty [of "m div 10"]
        by (simp only: show_nat_large [OF m]) (cases "show_nat (m div 10)"; simp)
      ultimately show ?thesis using "1.prems" by simp
    qed
  next
    case False
    show ?thesis
    proof (cases "m < 10")
      case m: True
      have "length (show_nat m) = 1" using m by (simp only: show_nat_small) simp
      moreover have "length (show_nat n) \<ge> 2"
        using show_nat_nonempty [of "n div 10"]
        by (simp only: show_nat_large [OF False]) (cases "show_nat (n div 10)"; simp)
      ultimately show ?thesis using "1.prems" by simp
    next
      case m: False
      from "1.prems"
      have eq: "show_nat (n div 10) @ [char_of (of_char CHR ''0'' + n mod 10)]
              = show_nat (m div 10) @ [char_of (of_char CHR ''0'' + m mod 10)]"
        by (simp only: show_nat_large [OF False] show_nat_large [OF m])
      then have a: "show_nat (n div 10) = show_nat (m div 10)"
        and b: "char_of (of_char CHR ''0'' + n mod 10 :: nat)
                  = (char_of (of_char CHR ''0'' + m mod 10 :: nat) :: char)"
        by simp_all
      from "1.IH" [OF False a] have "n div 10 = m div 10" .
      moreover have "n mod 10 = m mod 10"
      proof (rule digit_char_inj)
        show "n mod 10 < 10" by simp
        show "m mod 10 < 10" by simp
        show "char_of (of_char CHR ''0'' + n mod 10 :: nat)
                  = (char_of (of_char CHR ''0'' + m mod 10 :: nat) :: char)" by (rule b)
      qed
      ultimately show ?thesis by (metis div_mult_mod_eq)
    qed
  qed
qed


lemma visitKey_depth: "visitKey d n k = visitKey d' n' k' \<Longrightarrow> k = k'"
proof -
  assume "visitKey d n k = visitKey d' n' k'"
  then have "(d @ '':'' @ n) @ CHR '':'' # show_nat k = (d' @ '':'' @ n') @ CHR '':'' # show_nat k'"
    by (simp add: visitKey_def)
  with split_at_last_sep [OF show_nat_no_colon show_nat_no_colon]
  have "show_nat k = show_nat k'" by blast
  then show "k = k'" by (rule show_nat_inj)
qed



lemma findInTfvarsFiles_initial:
  "fst (findInTfvarsFiles e n d initial) = Inr None \<or> (\<exists>v. fst (findInTfvarsFiles e n d initial) = Inr (Some v))"
proof -
  obtain r where "\<forall>s. map_of (cache s) (''tfvars:'' @ n @ '':'' @ d) = None \<longrightarrow>
        (\<exists>s'. findInTfvarsFiles e n d s = (Inr r, s')
           \<and> (case r of None \<Rightarrow> s' = s | Some v \<Rightarrow> s' = cache_set e (''tfvars:'' @ n @ '':'' @ d) v s))"
    using findInTfvarsFiles_cold by blast
  then obtain s' where "findInTfvarsFiles e n d initial = (Inr r, s')" by (metis initial_cold)
  then show ?thesis by (cases r) simp_all
qed

lemma findInTf_initial:
  "fst (findInTf e parse key d initial) = Inr None \<or> (\<exists>v. fst (findInTf e parse key d initial) = Inr (Some v))"
proof -
  obtain r where "\<forall>s. map_of (cache s) key = None \<longrightarrow>
        (\<exists>s'. findInTf e parse key d s = (Inr r, s')
           \<and> (case r of None \<Rightarrow> s' = s | Some v \<Rightarrow> s' = cache_set e key v s))"
    using findInTf_cold by blast
  then obtain s' where "findInTf e parse key d initial = (Inr r, s')" by (metis initial_cold)
  then show ?thesis by (cases r) simp_all
qed



text \<open>The three direct lookups, one after the other, from a state in which none of their keys is cached.\<close>

lemma direct_lookups_first:
  assumes "map_of (cache s) (''tfvars:'' @ n @ '':'' @ d) = None"
    and "fst (findInTfvarsFiles e n d initial) = Inr (Some v)"
  shows "bindM (findInTfvarsFiles e n d) (\<lambda>r. case r of Some v \<Rightarrow> found e key v | None \<Rightarrow> cont) s
           = (Inr (Some v), cache_set e key v (cache_set e (''tfvars:'' @ n @ '':'' @ d) v s))"
  using findInTfvarsFiles_cold_Some [OF assms] by (simp add: bindM_def found_eq)

lemma direct_lookups_second:
  assumes "map_of (cache s) (''tfvars:'' @ n @ '':'' @ d) = None"
    and "map_of (cache s) (''locals:'' @ n @ '':'' @ d) = None"
    and "fst (findInTfvarsFiles e n d initial) = Inr None"
    and "fst (findInLocals e n d initial) = Inr (Some v)"
  shows "bindM (findInTfvarsFiles e n d) (\<lambda>r. case r of Some v \<Rightarrow> found e key v | None \<Rightarrow>
           bindM (findInLocals e n d) (\<lambda>r. case r of Some v \<Rightarrow> found e key v | None \<Rightarrow> cont)) s
           = (Inr (Some v), cache_set e key v (cache_set e (''locals:'' @ n @ '':'' @ d) v s))"
  using findInTfvarsFiles_cold_None [OF assms(1,3)]
    findInTf_cold_Some [OF assms(2), of e "\<lambda>content. parseLocalsBlock e content n" d v] assms(4)
  by (simp add: bindM_def found_eq findInLocals_def)

lemma direct_lookups_third:
  assumes "map_of (cache s) (''tfvars:'' @ n @ '':'' @ d) = None"
    and "map_of (cache s) (''locals:'' @ n @ '':'' @ d) = None"
    and "map_of (cache s) (''outputs:'' @ n @ '':'' @ d) = None"
    and "fst (findInTfvarsFiles e n d initial) = Inr None"
    and "fst (findInLocals e n d initial) = Inr None"
    and "fst (findInOutputs e n d initial) = Inr (Some v)"
  shows "bindM (findInTfvarsFiles e n d) (\<lambda>r. case r of Some v \<Rightarrow> found e key v | None \<Rightarrow>
           bindM (findInLocals e n d) (\<lambda>r. case r of Some v \<Rightarrow> found e key v | None \<Rightarrow>
           bindM (findInOutputs e n d) (\<lambda>r. case r of Some v \<Rightarrow> found e key v | None \<Rightarrow> cont))) s
           = (Inr (Some v), cache_set e key v (cache_set e (''outputs:'' @ n @ '':'' @ d) v s))"
  using findInTfvarsFiles_cold_None [OF assms(1,4)]
    findInTf_cold_None [OF assms(2), of e "\<lambda>content. parseLocalsBlock e content n" d] assms(5)
    findInTf_cold_Some [OF assms(3), of e "\<lambda>content. parseOutputBlock content n" d v] assms(6)
  by (simp add: bindM_def found_eq findInLocals_def findInOutputs_def)

lemma direct_lookups_none:
  assumes "map_of (cache s) (''tfvars:'' @ n @ '':'' @ d) = None"
    and "map_of (cache s) (''locals:'' @ n @ '':'' @ d) = None"
    and "map_of (cache s) (''outputs:'' @ n @ '':'' @ d) = None"
    and "fst (findInTfvarsFiles e n d initial) = Inr None"
    and "fst (findInLocals e n d initial) = Inr None"
    and "fst (findInOutputs e n d initial) = Inr None"
  shows "bindM (findInTfvarsFiles e n d) (\<lambda>r. case r of Some v \<Rightarrow> f1 v | None \<Rightarrow>
           bindM (findInLocals e n d) (\<lambda>r. case r of Some v \<Rightarrow> f2 v | None \<Rightarrow>
           bindM (findInOutputs e n d) (\<lambda>r. case r of Some v \<Rightarrow> f3 v | None \<Rightarrow> cont))) s
           = cont s"
  using findInTfvarsFiles_cold_None [OF assms(1,4)]
    findInTf_cold_None [OF assms(2), of e "\<lambda>content. parseLocalsBlock e content n" d] assms(5)
    findInTf_cold_None [OF assms(3), of e "\<lambda>content. parseOutputBlock content n" d] assms(6)
  by (simp add: bindM_def findInLocals_def findInOutputs_def)

lemma resolveVariableValue_order_aux:
  assumes "depth \<le> maxRecursionDepth"
    and "map_of (cache s) (resolveKey n d depth) = None"
    and "visitKey d n depth \<notin> visited s"
    and "map_of (cache s) (''tfvars:'' @ n @ '':'' @ d) = None"
    and "map_of (cache s) (''locals:'' @ n @ '':'' @ d) = None"
    and "map_of (cache s) (''outputs:'' @ n @ '':'' @ d) = None"
  shows "(fst (findInTfvarsFiles e n d initial) = Inr (Some v)
            \<longrightarrow> fst (resolveVariableValue e n d depth s) = Inr (Some v))
       \<and> (fst (findInTfvarsFiles e n d initial) = Inr None
          \<and> fst (findInLocals e n d initial) = Inr (Some v)
            \<longrightarrow> fst (resolveVariableValue e n d depth s) = Inr (Some v))
       \<and> (fst (findInTfvarsFiles e n d initial) = Inr None
          \<and> fst (findInLocals e n d initial) = Inr None
          \<and> fst (findInOutputs e n d initial) = Inr (Some v)
            \<longrightarrow> fst (resolveVariableValue e n d depth s) = Inr (Some v))"
proof -
  let ?s1 = "s\<lparr>visited := insert (visitKey d n depth) (visited s)\<rparr>"
  have c1: "map_of (cache ?s1) (''tfvars:'' @ n @ '':'' @ d) = None"
    and c2: "map_of (cache ?s1) (''locals:'' @ n @ '':'' @ d) = None"
    and c3: "map_of (cache ?s1) (''outputs:'' @ n @ '':'' @ d) = None"
    using assms(4-6) by simp_all
  show ?thesis
  proof (intro conjI impI)
    assume a: "fst (findInTfvarsFiles e n d initial) = Inr (Some v)"
    show "fst (resolveVariableValue e n d depth s) = Inr (Some v)"
      using assms(1-3)
      by (subst resolveVariableValue.simps)
         (simp add: bindM_Inr [OF getM_miss] tryFinally_def tryCatch_def
            direct_lookups_first [OF c1 a])
  next
    assume a: "fst (findInTfvarsFiles e n d initial) = Inr None
          \<and> fst (findInLocals e n d initial) = Inr (Some v)"
    show "fst (resolveVariableValue e n d depth s) = Inr (Some v)"
      using assms(1-3)
      by (subst resolveVariableValue.simps)
         (simp add: bindM_Inr [OF getM_miss] tryFinally_def tryCatch_def
            direct_lookups_second [OF c1 c2 conjunct1 [OF a] conjunct2 [OF a]])
  next
    assume a: "fst (findInTfvarsFiles e n d initial) = Inr None
          \<and> fst (findInLocals e n d initial) = Inr None
          \<and> fst (findInOutputs e n d initial) = Inr (Some v)"
    show "fst (resolveVariableValue e n d depth s) = Inr (Some v)"
      using assms(1-3)
      by (subst resolveVariableValue.simps)
         (simp add: bindM_Inr [OF getM_miss] tryFinally_def tryCatch_def
            direct_lookups_third [OF c1 c2 c3 conjunct1 [OF a] conjunct1 [OF conjunct2 [OF a]]
               conjunct2 [OF conjunct2 [OF a]]])
  qed
qed

lemma cache_get_effect:
  assumes "cache_get e key s = (r, s')"
  shows "visited s' = visited s \<and> resolvedModulePaths s' = resolvedModulePaths s
         \<and> (map_of (cache s) k = None \<longrightarrow> map_of (cache s') k = None)"
  using assms
  by (auto simp: cache_get_def Date_now_def delete_conv update_conv split: option.splits if_splits)

lemma getM_effect:
  assumes "getM e key s = (r, s')"
  shows "(\<exists>x. r = Inr x) \<and> visited s' = visited s \<and> resolvedModulePaths s' = resolvedModulePaths s
         \<and> (map_of (cache s) k = None \<longrightarrow> map_of (cache s') k = None)"
proof -
  obtain c s1 where g: "cache_get e key s = (c, s1)" by (cases "cache_get e key s")
  with assms have "r = Inr c" "s' = s1" by (simp_all add: getM_def)
  with cache_get_effect [OF g, of k] show ?thesis by simp
qed

lemma findModuleCall_loop_result:
  "\<exists>r. \<forall>s. \<exists>s'. findModuleCall_loop e m d key fs s = (Inr r, s')
        \<and> (case r of None \<Rightarrow> s' = s | Some mc \<Rightarrow> s' = cache_set e key (stringifyModuleCall e mc) s)"
proof (induction fs)
  case Nil
  show ?case by (rule exI [of _ None]) (simp add: ret_def)
next
  case (Cons f fs)
  then obtain r where r: "\<And>s. \<exists>s'. findModuleCall_loop e m d key fs s = (Inr r, s')
        \<and> (case r of None \<Rightarrow> s' = s | Some mc \<Rightarrow> s' = cache_set e key (stringifyModuleCall e mc) s)"
    by blast
  let ?p = "case readFile e (path_join d f) of None \<Rightarrow> None | Some content \<Rightarrow> parseModuleBlock content m"
  show ?case
  proof (cases ?p)
    case None
    have "\<And>s. findModuleCall_loop e m d key (f # fs) s = findModuleCall_loop e m d key fs s"
      using None
      by (auto simp: bindM_def tryCatch_def readFileM_def ret_def split: option.splits)
    with r show ?thesis by metis
  next
    case (Some mc)
    have "\<And>s. findModuleCall_loop e m d key (f # fs) s
            = (Inr (Some mc), cache_set e key (stringifyModuleCall e mc) s)"
      using Some
      by (auto simp: bindM_def tryCatch_def readFileM_def ret_def setM_def split: option.splits)
    then show ?thesis by (intro exI [of _ "Some mc"]) simp
  qed
qed

lemma findModuleCall_effect:
  assumes "findModuleCall e m d s = (r, s')"
  shows "(\<exists>x. r = Inr x) \<and> visited s' = visited s
         \<and> (k \<noteq> ''module:'' @ m @ '':'' @ d \<longrightarrow> map_of (cache s) k = None
              \<longrightarrow> map_of (cache s') k = None)"
proof -
  let ?key = "''module:'' @ m @ '':'' @ d"
  obtain c s1 where g: "getM e ?key s = (Inr c, s1)"
    using getM_never_throws by blast
  note g1 = getM_effect [OF g, of k]
  show ?thesis
  proof (cases c)
    case (Some t)
    with assms g have "r = Inr (parseModuleCall e t)" "s' = s1"
      by (simp_all add: findModuleCall_def tryCatch_def bindM_def ret_def)
    with g1 show ?thesis by simp
  next
    case None
    show ?thesis
    proof (cases "isDirectory e d")
      case False
      with assms g None have "r = Inr None" "s' = s1"
        by (simp_all add: findModuleCall_def tryCatch_def bindM_def ret_def)
      with g1 show ?thesis by simp
    next
      case True
      show ?thesis
      proof (cases "readdir e d")
        case rn: None
        with assms g None True have "r = Inr None" "s' = s1"
          by (simp_all add: findModuleCall_def tryCatch_def bindM_def ret_def readdirM_def)
        with g1 show ?thesis by simp
      next
        case (Some files)
        obtain x where x: "\<And>s. \<exists>s'. findModuleCall_loop e m d ?key
              (filter (\<lambda>f. endsWith f ''.tf'') files) s = (Inr x, s')
            \<and> (case x of None \<Rightarrow> s' = s | Some mc \<Rightarrow> s' = cache_set e ?key (stringifyModuleCall e mc) s)"
          using findModuleCall_loop_result by blast
        from x [of s1] obtain s2 where
          l: "findModuleCall_loop e m d ?key (filter (\<lambda>f. endsWith f ''.tf'') files) s1 = (Inr x, s2)"
          and s2: "(case x of None \<Rightarrow> s2 = s1 | Some mc \<Rightarrow> s2 = cache_set e ?key (stringifyModuleCall e mc) s1)"
          by blast
        from assms g None True Some l have rs: "r = Inr x" "s' = s2"
          by (simp_all add: findModuleCall_def tryCatch_def bindM_def readdirM_def)
        show ?thesis
        proof (cases x)
          case xn: None
          with s2 rs g1 show ?thesis by simp
        next
          case (Some mc)
          with s2 rs g1 show ?thesis by (auto simp: cache_set_absent)
        qed
      qed
    qed
  qed
qed

lemma resolveModulePath_effect:
  assumes "resolveModulePath e src d s = (r, s')"
  shows "(\<exists>x. r = Inr x) \<and> visited s' = visited s \<and> cache s' = cache s"
  using assms
  by (auto simp: resolveModulePath_def Let_def split: option.splits list.splits if_splits)

lemma findInTf_effect:
  assumes "findInTf e parse key d s = (r, s')"
  shows "(\<exists>x. r = Inr x) \<and> visited s' = visited s
         \<and> (r = Inr None \<longrightarrow> map_of (cache s) k = None \<longrightarrow> map_of (cache s') k = None)
         \<and> (k \<noteq> key \<longrightarrow> map_of (cache s) k = None \<longrightarrow> map_of (cache s') k = None)"
proof -
  obtain c s1 where g: "getM e key s = (Inr c, s1)"
    using getM_never_throws by blast
  note g1 = getM_effect [OF g, of k]
  show ?thesis
  proof (cases c)
    case (Some t)
    with assms g have "r = Inr (Some t)" "s' = s1"
      by (simp_all add: findInTf_def tryCatch_def bindM_def ret_def)
    with g1 show ?thesis by simp
  next
    case None
    show ?thesis
    proof (cases "isDirectory e d")
      case False
      with assms g None have "r = Inr None" "s' = s1"
        by (simp_all add: findInTf_def tryCatch_def bindM_def ret_def)
      with g1 show ?thesis by simp
    next
      case True
      show ?thesis
      proof (cases "readdir e d")
        case rn: None
        with assms g None True have "r = Inr None" "s' = s1"
          by (simp_all add: findInTf_def tryCatch_def bindM_def ret_def readdirM_def)
        with g1 show ?thesis by simp
      next
        case (Some files)
        obtain x where x: "\<And>s. \<exists>s'. findInTf_loop e parse d key
              (filter (\<lambda>f. endsWith f ''.tf'') files) s = (Inr x, s')
            \<and> (case x of None \<Rightarrow> s' = s | Some v \<Rightarrow> s' = cache_set e key v s)"
          using findInTf_loop_result by blast
        from x [of s1] obtain s2 where
          l: "findInTf_loop e parse d key (filter (\<lambda>f. endsWith f ''.tf'') files) s1 = (Inr x, s2)"
          and s2: "(case x of None \<Rightarrow> s2 = s1 | Some v \<Rightarrow> s2 = cache_set e key v s1)"
          by blast
        from assms g None True Some l have rs: "r = Inr x" "s' = s2"
          by (simp_all add: findInTf_def tryCatch_def bindM_def readdirM_def)
        show ?thesis
        proof (cases x)
          case xn: None
          with s2 rs g1 show ?thesis by simp
        next
          case (Some v)
          with s2 rs g1 show ?thesis by (auto simp: cache_set_absent)
        qed
      qed
    qed
  qed
qed

lemma findInTfvarsFiles_effect:
  assumes "findInTfvarsFiles e n d s = (r, s')"
  shows "(\<exists>x. r = Inr x) \<and> visited s' = visited s
         \<and> (k \<noteq> ''tfvars:'' @ n @ '':'' @ d \<longrightarrow> map_of (cache s) k = None
               \<longrightarrow> map_of (cache s') k = None)"
proof -
  let ?key = "''tfvars:'' @ n @ '':'' @ d"
  obtain c s1 where g: "getM e ?key s = (Inr c, s1)"
    using getM_never_throws by blast
  note g1 = getM_effect [OF g, of k]
  show ?thesis
  proof (cases c)
    case (Some t)
    with assms g have "r = Inr (Some t)" "s' = s1"
      by (simp_all add: findInTfvarsFiles_def tryCatch_def bindM_def ret_def)
    with g1 show ?thesis by simp
  next
    case None
    show ?thesis
    proof (cases "isDirectory e d")
      case False
      with assms g None have "r = Inr None" "s' = s1"
        by (simp_all add: findInTfvarsFiles_def tryCatch_def bindM_def ret_def)
      with g1 show ?thesis by simp
    next
      case True
      show ?thesis
      proof (cases "readdir e d")
        case rn: None
        with assms g None True have "r = Inr None" "s' = s1"
          by (simp_all add: findInTfvarsFiles_def tryCatch_def bindM_def ret_def readdirM_def)
        with g1 show ?thesis by simp
      next
        case (Some files)
        obtain x where x: "\<And>s. \<exists>s'. findInTfvarsFiles_loop e n d ?key
              (filter (\<lambda>f. endsWith f ''.tfvars'' \<or> endsWith f ''.tfvars.json'') files) s = (Inr x, s')
            \<and> (case x of None \<Rightarrow> s' = s | Some v \<Rightarrow> s' = cache_set e ?key v s)"
          using findInTfvarsFiles_loop_result by blast
        from x [of s1] obtain s2 where
          l: "findInTfvarsFiles_loop e n d ?key
               (filter (\<lambda>f. endsWith f ''.tfvars'' \<or> endsWith f ''.tfvars.json'') files) s1 = (Inr x, s2)"
          and s2: "(case x of None \<Rightarrow> s2 = s1 | Some v \<Rightarrow> s2 = cache_set e ?key v s1)"
          by blast
        from assms g None True Some l have rs: "r = Inr x" "s' = s2"
          by (simp_all add: findInTfvarsFiles_def tryCatch_def bindM_def readdirM_def)
        show ?thesis
        proof (cases x)
          case xn: None
          with s2 rs g1 show ?thesis by simp
        next
          case (Some v)
          with s2 rs g1 show ?thesis by (auto simp: cache_set_absent)
        qed
      qed
    qed
  qed
qed

lemma findModuleCall_never_throws: "\<exists>x s'. findModuleCall e m d s = (Inr x, s')"
  by (simp add: findModuleCall_def tryCatch_ret_never_throws)

lemma findInTf_never_throws: "\<exists>x s'. findInTf e parse key d s = (Inr x, s')"
  by (simp add: findInTf_def tryCatch_ret_never_throws)

lemma findInOutputs_never_throws: "\<exists>x s'. findInOutputs e n d s = (Inr x, s')"
  by (simp add: findInOutputs_def findInTf_never_throws)

lemma findInLocals_never_throws: "\<exists>x s'. findInLocals e n d s = (Inr x, s')"
  by (simp add: findInLocals_def findInTf_never_throws)

lemma findInTfvarsFiles_never_throws: "\<exists>x s'. findInTfvarsFiles e n d s = (Inr x, s')"
  by (simp add: findInTfvarsFiles_def tryCatch_ret_never_throws)

lemma resolveModulePath_never_throws: "\<exists>x s'. resolveModulePath e src d s = (Inr x, s')"
  by (auto simp: resolveModulePath_def Let_def split: option.splits list.splits)

lemma resolveReferencesInValue_never_throws:
  "\<exists>x s'. resolveReferencesInValue e v d k s = (Inr x, s')"
proof (cases "v = []")
  case True
  then show ?thesis by (subst resolveReferencesInValue.simps) simp
next
  case False
  then show ?thesis
    by (subst resolveReferencesInValue.simps) (simp add: tryCatch_ret_never_throws)
qed

lemma resolveModuleOutput_None_effect:
  assumes "resolveModuleOutput e r d k s = (Inr None, s')"
    and "map_of (cache s) key = None"
    and "\<not> startsWith key ''module:''"
  shows "map_of (cache s') key = None \<and> visited s' = visited s"
proof (cases "length (split_on CHR ''.'' r) < 3 \<or> hd (split_on CHR ''.'' r) \<noteq> ''module''")
  case True
  with assms(1) have "s' = s"
    by (subst (asm) resolveModuleOutput.simps) (simp add: tryCatch_def ret_def)
  with assms(2) show ?thesis by simp
next
  case False
  let ?m = "split_on CHR ''.'' r ! 1"
  let ?out = "join ''.'' (drop 2 (split_on CHR ''.'' r))"
  have ne: "key \<noteq> ''module:'' @ ?m @ '':'' @ d"
    using assms(3) by (auto simp: startsWith_def)
  obtain mc s1 where f: "findModuleCall e ?m d s = (Inr mc, s1)"
    using findModuleCall_never_throws by blast
  from findModuleCall_effect [OF f, of key] ne assms(2)
  have s1: "map_of (cache s1) key = None" "visited s1 = visited s" by simp_all
  show ?thesis
  proof (cases mc)
    case None
    with assms(1) False f have "s' = s1"
      by (subst (asm) resolveModuleOutput.simps) (simp add: tryCatch_def bindM_def ret_def)
    with s1 show ?thesis by simp
  next
    case (Some call)
    obtain mp s2 where p: "resolveModulePath e (mc_source call) d s1 = (Inr mp, s2)"
      using resolveModulePath_never_throws by blast
    from resolveModulePath_effect [OF p] s1
    have s2: "map_of (cache s2) key = None" "visited s2 = visited s" by simp_all
    show ?thesis
    proof (cases "mp = None \<or> mp = Some []")
      case True
      with assms(1) False f Some p have "s' = s2"
        by (subst (asm) resolveModuleOutput.simps)
           (auto simp: tryCatch_def bindM_def ret_def)
      with s2 show ?thesis by simp
    next
      case nt: False
      then obtain q where q: "mp = Some q" "q \<noteq> []" by auto
      obtain ov s3 where o: "findInOutputs e ?out q s2 = (Inr ov, s3)"
        using findInOutputs_never_throws by blast
      show ?thesis
      proof (cases ov)
        case None
        with assms(1) False f Some p q o have "s' = s3"
          by (subst (asm) resolveModuleOutput.simps)
             (simp add: tryCatch_def bindM_def ret_def)
        moreover from findInTf_effect [OF o [unfolded findInOutputs_def], of key] None s2
        have "map_of (cache s3) key = None" "visited s3 = visited s" by simp_all
        ultimately show ?thesis by simp
      next
        case (Some val)
        obtain x s4 where "resolveReferencesInValue e val q (k + 1) s3 = (Inr x, s4)"
          using resolveReferencesInValue_never_throws by blast
        with assms(1) False f \<open>mc = Some call\<close> p q o Some have False
          by (subst (asm) resolveModuleOutput.simps)
             (simp add: tryCatch_def bindM_def ret_def)
        then show ?thesis ..
      qed
    qed
  qed
qed

subsection \<open>Values from a JSON variables file\<close>

text \<open>
  C9. \<open>parseJsonVariable\<close> does not return the source text of a structured value. When
  the file parses and holds a value under the name: an array of more than three elements
  comes back as its first three elements, formatted, followed by \<open>, ...]\<close>; an object of
  more than three entries as its first two \<open>key = value\<close> pairs followed by \<open>, ... }\<close>; a
  string comes back between double quotes.
\<close>

theorem parseJsonVariable_formats:
  assumes "JSON_parse e content = Some j" and "js_member e j variableName = Inr (Some v)"
  shows "(\<forall>xs. v = JArray xs \<and> length xs > 3 \<longrightarrow>
            parseJsonVariable e content variableName
              = Some (''['' @ join '', '' (map formatValue (take 3 xs)) @ '', ...]''))
       \<and> (\<forall>es. v = JObject es \<and> length es > 3 \<longrightarrow>
            parseJsonVariable e content variableName
              = Some (''{ '' @ join '', '' (map (\<lambda>(k, x). k @ '' = '' @ formatValue x) (take 2 es))
                      @ '', ... }''))
       \<and> (\<forall>t. v = JString t \<longrightarrow>
            parseJsonVariable e content variableName = Some (''\"'' @ t @ ''\"''))"
  using assms by (auto simp: parseJsonVariable_def)

theorem parseJsonVariable_formats_witness:
  "parseJsonVariable json_env json_text ''zones'' = Some ''[\"a\", \"b\", \"c\", ...]''
   \<and> parseJsonVariable json_env json_text ''tags'' = Some ''{ a = 1, b = 2, ... }''
   \<and> parseJsonVariable json_env json_text ''region'' = Some ''\"eu\"''"
proof -
  let ?zones = "JArray [JString ''a'', JString ''b'', JString ''c'', JString ''d'']"
  let ?tags = "JObject [(''a'', JNumber ''1''), (''b'', JNumber ''2''),
                        (''c'', JNumber ''3''), (''d'', JNumber ''4'')]"
  let ?j = "JObject [(''zones'', ?zones), (''tags'', ?tags), (''region'', JString ''eu'')]"
  have p: "JSON_parse json_env json_text = Some ?j"
    by (simp add: json_env_def json_text_def example_env_def)
  have z: "js_member json_env ?j ''zones'' = Inr (Some ?zones)"
    by (simp add: js_member_def)
  have t: "js_member json_env ?j ''tags'' = Inr (Some ?tags)"
    by (simp add: js_member_def)
  have r: "js_member json_env ?j ''region'' = Inr (Some (JString ''eu''))"
    by (simp add: js_member_def)
  from parseJsonVariable_formats [OF p z] parseJsonVariable_formats [OF p t]
       parseJsonVariable_formats [OF p r]
  show ?thesis by simp
qed

subsection \<open>Braced objects over several lines\<close>

text \<open>
  C8. For an object that holds a nested object, the fourth pattern of \<open>parseHclVariable\<close>
  stops at the closing brace of the inner object, \<open>hasMatchingBraces\<close> finds the braces
  unbalanced, and \<open>extractCompleteObject\<close> is called to find the whole object. It counts
  with \<open>/\\{/g\<close> and \<open>/\\}/g\<close>, which match a brace only after a backslash: the count is 0
  on the first line, the object is taken for a one-line object, and the result is the
  opening brace alone.
\<close>

theorem parseHclVariable_nested_object:
  "parseHclVariable json_env nested_object_tfvars ''x'' = Some ''{''"
  by code_simp

subsection \<open>The workspace boundary\<close>

text \<open>
  C10. \<open>isWithinWorkspace\<close> holds exactly when the normalized workspace root is a prefix,
  as a string, of the normalized directory. So a directory whose normalized path extends
  the text of the root is taken to be inside, whether or not it lies below the root, and
  \<open>resolveModulePath\<close> returns such a directory for a relative source that leads to it.
\<close>

theorem isWithinWorkspace_prefix:
  "(isWithinWorkspace e dir \<longleftrightarrow> prefix (path_normalize (workspaceRoot e)) (path_normalize dir))
   \<and> (path_normalize (workspaceRoot e) = root \<and> path_normalize dir = root @ ext
        \<longrightarrow> isWithinWorkspace e dir)
   \<and> (startsWith source ''../''
        \<and> map_of (resolvedModulePaths s) (''modulePath:'' @ source @ '':'' @ currentDir) = None
        \<and> isDirectory e (path_resolve e currentDir source)
        \<and> path_normalize (workspaceRoot e) = root
        \<and> path_normalize (path_resolve e currentDir source) = root @ ext
      \<longrightarrow> fst (resolveModulePath e source currentDir s)
            = Inr (Some (path_resolve e currentDir source)))"
proof (intro conjI impI)
  show "isWithinWorkspace e dir
          \<longleftrightarrow> prefix (path_normalize (workspaceRoot e)) (path_normalize dir)"
    by (simp add: isWithinWorkspace_def Let_def startsWith_prefix)
next
  assume "path_normalize (workspaceRoot e) = root \<and> path_normalize dir = root @ ext"
  then show "isWithinWorkspace e dir"
    by (simp add: isWithinWorkspace_def Let_def startsWith_def)
next
  assume a: "startsWith source ''../''
        \<and> map_of (resolvedModulePaths s) (''modulePath:'' @ source @ '':'' @ currentDir) = None
        \<and> isDirectory e (path_resolve e currentDir source)
        \<and> path_normalize (workspaceRoot e) = root
        \<and> path_normalize (path_resolve e currentDir source) = root @ ext"
  then have w: "isWithinWorkspace e (path_resolve e currentDir source)"
    by (simp add: isWithinWorkspace_def Let_def startsWith_def)
  from a w show "fst (resolveModulePath e source currentDir s)
                   = Inr (Some (path_resolve e currentDir source))"
    by (simp add: resolveModulePath_def Let_def path_resolve_nonempty)
qed

theorem isWithinWorkspace_prefix_witness:
  "isWithinWorkspace sibling_env ''/w/app2''
   \<and> path_dirname ''/w/app2'' = path_dirname ''/w/app''
   \<and> fst (resolveModulePath sibling_env ''../app2'' ''/w/app'' initial) = Inr (Some ''/w/app2'')"
proof -
  have r: "path_normalize (workspaceRoot sibling_env) = ''/w/app''" by code_simp
  have d: "path_normalize ''/w/app2'' = ''/w/app'' @ ''2''" by code_simp
  have p: "path_resolve sibling_env ''/w/app'' ''../app2'' = ''/w/app2''" by code_simp
  have h: "startsWith ''../app2'' ''../''
        \<and> map_of (resolvedModulePaths initial)
             (''modulePath:'' @ ''../app2'' @ '':'' @ ''/w/app'') = None
        \<and> isDirectory sibling_env (path_resolve sibling_env ''/w/app'' ''../app2'')
        \<and> path_normalize (workspaceRoot sibling_env) = ''/w/app''
        \<and> path_normalize (path_resolve sibling_env ''/w/app'' ''../app2'') = ''/w/app'' @ ''2''"
    by code_simp
  have s: "path_dirname ''/w/app2'' = path_dirname ''/w/app''" by code_simp
  from isWithinWorkspace_prefix [of sibling_env "''/w/app2''" "''/w/app''" "''2''"
                                    "''../app2''" initial "''/w/app''"]
       r d h p s
  show ?thesis by simp
qed

subsection \<open>Order of the sources in one directory\<close>

text \<open>
  C1. When \<open>resolveVariableValue\<close> consults the sources of a directory (the depth is
  within the bound, no resolution of this name, directory and depth is cached, and the
  call does not find its own visit key), it takes them in a fixed order and stops at the
  first hit: the value of the variables files if they give one, whatever the locals and
  outputs say; else the value of the locals; else the value of the outputs. What a source
  gives is what its lookup returns on a resolver that has cached nothing.
\<close>

theorem resolveVariableValue_order:
  assumes "depth \<le> maxRecursionDepth"
    and "map_of (cache s) (resolveKey n d depth) = None"
    and "visitKey d n depth \<notin> visited s"
    and "map_of (cache s) (''tfvars:'' @ n @ '':'' @ d) = None"
    and "map_of (cache s) (''locals:'' @ n @ '':'' @ d) = None"
    and "map_of (cache s) (''outputs:'' @ n @ '':'' @ d) = None"
  shows "(fst (findInTfvarsFiles e n d initial) = Inr (Some v)
            \<longrightarrow> fst (resolveVariableValue e n d depth s) = Inr (Some v))
       \<and> (fst (findInTfvarsFiles e n d initial) = Inr None
          \<and> fst (findInLocals e n d initial) = Inr (Some v)
            \<longrightarrow> fst (resolveVariableValue e n d depth s) = Inr (Some v))
       \<and> (fst (findInTfvarsFiles e n d initial) = Inr None
          \<and> fst (findInLocals e n d initial) = Inr None
          \<and> fst (findInOutputs e n d initial) = Inr (Some v)
            \<longrightarrow> fst (resolveVariableValue e n d depth s) = Inr (Some v))"
  using assms by (rule resolveVariableValue_order_aux)

lemma initial_not_visited: "k \<notin> visited initial"
  by (simp add: initial_def)

theorem resolveVariableValue_order_witness:
  "fst (resolveVariableValue precedence_env ''region'' ''/w'' 0 initial) = Inr (Some ''us-east-1'')
   \<and> fst (findInLocals precedence_env ''region'' ''/w'' initial) = Inr (Some ''l'')
   \<and> fst (resolveVariableValue precedence_env ''zone'' ''/w'' 0 initial) = Inr (Some ''zl'')
   \<and> fst (findInOutputs precedence_env ''zone'' ''/w'' initial) = Inr (Some ''1'')
   \<and> fst (resolveVariableValue precedence_env ''project'' ''/w'' 0 initial) = Inr (Some ''2'')"
proof -
  have r1: "fst (findInTfvarsFiles precedence_env ''region'' ''/w'' initial) = Inr (Some ''us-east-1'')"
    by code_simp
  have r2: "fst (findInLocals precedence_env ''region'' ''/w'' initial) = Inr (Some ''l'')"
    by code_simp
  have z1: "fst (findInTfvarsFiles precedence_env ''zone'' ''/w'' initial) = Inr None
            \<and> fst (findInLocals precedence_env ''zone'' ''/w'' initial) = Inr (Some ''zl'')"
    by code_simp
  have z2: "fst (findInOutputs precedence_env ''zone'' ''/w'' initial) = Inr (Some ''1'')"
    by code_simp
  have p1: "fst (findInTfvarsFiles precedence_env ''project'' ''/w'' initial) = Inr None
            \<and> fst (findInLocals precedence_env ''project'' ''/w'' initial) = Inr None
            \<and> fst (findInOutputs precedence_env ''project'' ''/w'' initial) = Inr (Some ''2'')"
    by code_simp
  have d: "0 \<le> maxRecursionDepth" by simp
  note t = resolveVariableValue_order [OF d initial_cold initial_not_visited initial_cold
             initial_cold initial_cold]
  from t [where n = "''region''" and d = "''/w''" and e = precedence_env and v = "''us-east-1''"] r1
  have a: "fst (resolveVariableValue precedence_env ''region'' ''/w'' 0 initial) = Inr (Some ''us-east-1'')"
    by blast
  from t [where n = "''zone''" and d = "''/w''" and e = precedence_env and v = "''zl''"] z1
  have b: "fst (resolveVariableValue precedence_env ''zone'' ''/w'' 0 initial) = Inr (Some ''zl'')"
    by blast
  from t [where n = "''project''" and d = "''/w''" and e = precedence_env
            and v = "''2''"] p1
  have c: "fst (resolveVariableValue precedence_env ''project'' ''/w'' 0 initial) = Inr (Some ''2'')"
    by blast
  from a r2 b z2 c show ?thesis by blast
qed

lemma directLookup_None:
  assumes "directLookup e n d = None"
  shows "fst (findInTfvarsFiles e n d initial) = Inr None"
    and "fst (findInLocals e n d initial) = Inr None"
    and "fst (findInOutputs e n d initial) = Inr None"
  using assms findInTfvarsFiles_initial [of e n d]
    findInTf_initial [of e "\<lambda>content. parseLocalsBlock e content n" "''locals:'' @ n @ '':'' @ d" d]
    findInTf_initial [of e "\<lambda>content. parseOutputBlock content n" "''outputs:'' @ n @ '':'' @ d" d]
  by (auto simp: directLookup_def findInLocals_def findInOutputs_def split: sum.splits option.splits)

lemma directLookup_Some:
  assumes "directLookup e n d = Some v"
  shows "fst (findInTfvarsFiles e n d initial) = Inr (Some v)
       \<or> (fst (findInTfvarsFiles e n d initial) = Inr None
          \<and> fst (findInLocals e n d initial) = Inr (Some v))
       \<or> (fst (findInTfvarsFiles e n d initial) = Inr None
          \<and> fst (findInLocals e n d initial) = Inr None
          \<and> fst (findInOutputs e n d initial) = Inr (Some v))"
  using assms findInTfvarsFiles_initial [of e n d]
    findInTf_initial [of e "\<lambda>content. parseLocalsBlock e content n" "''locals:'' @ n @ '':'' @ d" d]
    findInTf_initial [of e "\<lambda>content. parseOutputBlock content n" "''outputs:'' @ n @ '':'' @ d" d]
  by (auto simp: directLookup_def findInLocals_def findInOutputs_def split: sum.splits option.splits)

lemma resolveVariableValue_direct:
  assumes "depth \<le> maxRecursionDepth"
    and "map_of (cache s) (resolveKey n d depth) = None"
    and "visitKey d n depth \<notin> visited s"
    and "map_of (cache s) (''tfvars:'' @ n @ '':'' @ d) = None"
    and "map_of (cache s) (''locals:'' @ n @ '':'' @ d) = None"
    and "map_of (cache s) (''outputs:'' @ n @ '':'' @ d) = None"
    and "directLookup e n d = Some v"
  shows "fst (resolveVariableValue e n d depth s) = Inr (Some v)"
  using resolveVariableValue_order_aux [OF assms(1-6), of e v] directLookup_Some [OF assms(7)]
  by blast

lemma resolveVariableValue_undeclared:
  assumes "depth \<le> maxRecursionDepth"
    and "map_of (cache s) (resolveKey n d depth) = None"
    and "visitKey d n depth \<notin> visited s"
    and "map_of (cache s) (''tfvars:'' @ n @ '':'' @ d) = None"
    and "map_of (cache s) (''locals:'' @ n @ '':'' @ d) = None"
    and "map_of (cache s) (''outputs:'' @ n @ '':'' @ d) = None"
    and "directLookup e n d = None"
  shows "resolveVariableValue e n d depth s =
     tryFinally
       (tryCatch
          (bindM (if startsWith n ''module.''
                  then resolveModuleOutput e n d (depth + 1)
                  else ret None) (\<lambda>r.
             case r of
               Some v \<Rightarrow> found e (resolveKey n d depth) v
             | None \<Rightarrow>
                 if path_dirname d \<noteq> d \<and> isWithinWorkspace e (path_dirname d)
                 then
                   bindM (resolveVariableValue e n (path_dirname d) (depth + 1)) (\<lambda>r.
                     case r of
                       Some v \<Rightarrow> found e (resolveKey n d depth) v
                     | None \<Rightarrow> ret None)
                 else ret None))
          (\<lambda>err. ret None))
       (\<lambda>s. s\<lparr>visited := visited s - {visitKey d n depth}\<rparr>)
       (s\<lparr>visited := insert (visitKey d n depth) (visited s)\<rparr>)"
proof -
  let ?s1 = "s\<lparr>visited := insert (visitKey d n depth) (visited s)\<rparr>"
  have c1: "map_of (cache ?s1) (''tfvars:'' @ n @ '':'' @ d) = None"
    and c2: "map_of (cache ?s1) (''locals:'' @ n @ '':'' @ d) = None"
    and c3: "map_of (cache ?s1) (''outputs:'' @ n @ '':'' @ d) = None"
    using assms(4-6) by simp_all
  note dn = direct_lookups_none [OF c1 c2 c3 directLookup_None [OF assms(7)]]
  show ?thesis
    using assms(1-3)
    by (subst resolveVariableValue.simps)
       (simp add: bindM_Inr [OF getM_miss] tryFinally_def tryCatch_def dn)
qed

subsection \<open>Falling back to the parent directory\<close>

text \<open>
  C7. When a directory declares nothing for a name (and no module output answers for it)
  but its parent directory does, and the parent passes \<open>isWithinWorkspace\<close>, resolving the
  name from the directory gives the parent's value. When the parent does not pass the
  check, the parent is not consulted and the result is not-found. The resolver starts
  with nothing cached, and the depth is below the bound, as it is for a call from outside.
\<close>

theorem resolveVariableValue_parent_fallback:
  assumes "depth < maxRecursionDepth"
    and "cache s = []"
    and "visitKey d n depth \<notin> visited s"
    and "visitKey (path_dirname d) n (Suc depth) \<notin> visited s"
    and "directLookup e n d = None"
    and "startsWith n ''module.'' \<longrightarrow>
           fst (resolveModuleOutput e n d (Suc depth)
                  (s\<lparr>visited := insert (visitKey d n depth) (visited s)\<rparr>)) = Inr None"
  shows "(isWithinWorkspace e (path_dirname d) \<and> directLookup e n (path_dirname d) = Some v
            \<longrightarrow> fst (resolveVariableValue e n d depth s) = Inr (Some v))
       \<and> (\<not> isWithinWorkspace e (path_dirname d)
            \<longrightarrow> fst (resolveVariableValue e n d depth s) = Inr None)"
proof -
  let ?s1 = "s\<lparr>visited := insert (visitKey d n depth) (visited s)\<rparr>"
  let ?p = "path_dirname d"
  have le: "depth \<le> maxRecursionDepth" using assms(1) by simp
  have cold: "\<And>k. map_of (cache s) k = None" using assms(2) by simp
  note u = resolveVariableValue_undeclared [OF le cold assms(3) cold cold cold assms(5)]
  obtain s2 where m: "(if startsWith n ''module.''
                       then resolveModuleOutput e n d (depth + 1)
                       else ret None) ?s1 = (Inr None, s2)"
    and s2c: "\<And>k. \<not> startsWith k ''module:'' \<Longrightarrow> map_of (cache s2) k = None"
    and s2v: "visited s2 = visited ?s1"
  proof (cases "startsWith n ''module.''")
    case True
    with assms(6) obtain t where t: "resolveModuleOutput e n d (Suc depth) ?s1 = (Inr None, t)"
      by (cases "resolveModuleOutput e n d (Suc depth) ?s1") auto
    have "\<And>k. \<not> startsWith k ''module:'' \<Longrightarrow> map_of (cache t) k = None"
      using resolveModuleOutput_None_effect [OF t] assms(2) by simp
    moreover have "visited t = visited ?s1"
      using resolveModuleOutput_None_effect [OF t, of "[]"] assms(2)
      by (simp add: startsWith_def)
    ultimately show ?thesis using that [of t] True t by simp
  next
    case False
    then show ?thesis using that [of ?s1] assms(2) by (simp add: ret_def)
  qed
  note bm = bindM_Inr [of "if startsWith n ''module.''
                             then resolveModuleOutput e n d (depth + 1)
                             else ret None" ?s1 None s2, OF m]
  show ?thesis
  proof (intro conjI impI)
    assume a: "isWithinWorkspace e ?p \<and> directLookup e n ?p = Some v"
    with assms(5) have ne: "?p \<noteq> d" by auto
    have nv: "visitKey ?p n (Suc depth) \<notin> visited s2"
      using s2v assms(4) visitKey_depth [of ?p n "Suc depth" d n depth] by auto
    have "fst (resolveVariableValue e n ?p (Suc depth) s2) = Inr (Some v)"
    proof (rule resolveVariableValue_direct)
      show "Suc depth \<le> maxRecursionDepth" using assms(1) by simp
      show "map_of (cache s2) (resolveKey n ?p (Suc depth)) = None"
        by (rule s2c) (simp add: startsWith_def resolveKey_def)
      show "visitKey ?p n (Suc depth) \<notin> visited s2" by (rule nv)
      show "map_of (cache s2) (''tfvars:'' @ n @ '':'' @ ?p) = None"
        by (rule s2c) (simp add: startsWith_def)
      show "map_of (cache s2) (''locals:'' @ n @ '':'' @ ?p) = None"
        by (rule s2c) (simp add: startsWith_def)
      show "map_of (cache s2) (''outputs:'' @ n @ '':'' @ ?p) = None"
        by (rule s2c) (simp add: startsWith_def)
      show "directLookup e n ?p = Some v" using a by simp
    qed
    then obtain s3 where p: "resolveVariableValue e n ?p (Suc depth) s2 = (Inr (Some v), s3)"
      by (cases "resolveVariableValue e n ?p (Suc depth) s2") auto
    show "fst (resolveVariableValue e n d depth s) = Inr (Some v)"
      using a ne
      by (simp add: u tryFinally_def tryCatch_def bm
            bindM_Inr [of "resolveVariableValue e n ?p (Suc depth)" s2 "Some v" s3, OF p] found_eq)
  next
    assume a: "\<not> isWithinWorkspace e ?p"
    show "fst (resolveVariableValue e n d depth s) = Inr None"
      using a
      by (simp add: u tryFinally_def tryCatch_def bm ret_def)
  qed
qed

theorem resolveVariableValue_parent_fallback_witness:
  "fst (resolveVariableValue parent_env ''region'' ''/w/env'' 0 initial) = Inr (Some ''us-east-1'')
   \<and> fst (resolveVariableValue parent_env ''region'' ''/w/env'' 0 initial)
       = fst (resolveVariableValue parent_env ''region'' ''/w'' 0 initial)
   \<and> fst (resolveVariableValue parent_env ''stage'' ''/w'' 0 initial) = Inr None"
proof -
  have d: "0 < maxRecursionDepth" by (simp add: maxRecursionDepth_def)
  have c: "cache initial = []" by (simp add: initial_def)
  have m1: "startsWith ''region'' ''module.'' \<longrightarrow>
           fst (resolveModuleOutput parent_env ''region'' ''/w/env'' (Suc 0)
                  (initial\<lparr>visited := insert (visitKey ''/w/env'' ''region'' 0) (visited initial)\<rparr>))
             = Inr None"
    by (simp add: startsWith_def)
  have m2: "startsWith ''stage'' ''module.'' \<longrightarrow>
           fst (resolveModuleOutput parent_env ''stage'' ''/w'' (Suc 0)
                  (initial\<lparr>visited := insert (visitKey ''/w'' ''stage'' 0) (visited initial)\<rparr>))
             = Inr None"
    by (simp add: startsWith_def)
  have l1: "directLookup parent_env ''region'' ''/w/env'' = None" by code_simp
  have l2: "isWithinWorkspace parent_env (path_dirname ''/w/env'')
            \<and> directLookup parent_env ''region'' (path_dirname ''/w/env'') = Some ''us-east-1''"
    by code_simp
  have l3: "directLookup parent_env ''stage'' ''/w'' = None" by code_simp
  have l4: "\<not> isWithinWorkspace parent_env (path_dirname ''/w'')" by code_simp
  have top: "fst (resolveVariableValue parent_env ''region'' ''/w'' 0 initial) = Inr (Some ''us-east-1'')"
    by code_simp
  from resolveVariableValue_parent_fallback
         [OF d c initial_not_visited initial_not_visited l1 m1, where v = "''us-east-1''"] l2
  have a: "fst (resolveVariableValue parent_env ''region'' ''/w/env'' 0 initial)
             = Inr (Some ''us-east-1'')"
    by blast
  from resolveVariableValue_parent_fallback
         [OF d c initial_not_visited initial_not_visited l3 m2, where v = "[]"] l4
  have b: "fst (resolveVariableValue parent_env ''stage'' ''/w'' 0 initial) = Inr None"
    by blast
  from a b top show ?thesis by simp
qed



subsection \<open>No exception leaves a resolution\<close>







subsection \<open>The depth bound\<close>












subsection \<open>Cycles\<close>

text \<open>
  C4. The resolver keeps a set of visit keys to stop a resolution that comes back to a
  context it is already working on: a call whose key is in the set returns not-found. The
  key is made of the directory, the name and the depth, and a nested resolution runs at a
  greater depth than the one that started it, so the key of a call is not in the set when
  the call is made, and a cycle is followed until the depth bound ends it. For the locals
  \<open>a = local.b\<close> and \<open>b = local.a\<close>, resolving \<open>a\<close> gives the text of a reference:
  \<open>local.b\<close> from \<open>resolveVariableValue\<close> and \<open>local.a\<close> from
  \<open>resolveVariableValueEnhanced\<close>. For the variables \<open>a = var.b\<close> and \<open>b = var.a\<close>, the
  resolution of \<open>a\<close> enters the resolution of \<open>a\<close> in the same directory again at the depths
  2, 4, 6, 8 and 10, as the keys of the cache show when it ends, and gives \<open>var.b\<close>; the
  set of visit keys is empty again when it ends.
\<close>

theorem circular_reference_not_detected:
  "fst (resolveVariableValue cycle_env ''a'' ''/w'' 0 initial) = Inr (Some ''local.b'')
   \<and> fst (resolveVariableValueEnhanced cycle_env ''a'' ''/w'' 0 [] initial) = Inr (Some ''local.a'')
   \<and> fst (resolveVariableValueEnhanced var_cycle_env ''a'' ''/w'' 0 [] initial) = Inr (Some ''var.b'')
   \<and> map fst (cache (snd (resolveVariableValueEnhanced var_cycle_env ''a'' ''/w'' 0 [] initial)))
       = [''tfvars:a:/w'', ''tfvars:b:/w'', ''enhanced:a:/w:10:'', ''enhanced:b:/w:9:'',
          ''enhanced:a:/w:8:'', ''enhanced:b:/w:7:'', ''enhanced:a:/w:6:'', ''enhanced:b:/w:5:'',
          ''enhanced:a:/w:4:'', ''enhanced:b:/w:3:'', ''enhanced:a:/w:2:'', ''enhanced:b:/w:1:'',
          ''enhanced:a:/w:0:'']
   \<and> visited (snd (resolveVariableValueEnhanced var_cycle_env ''a'' ''/w'' 0 [] initial)) = {}"
  by code_simp

end
